theory Spec2Isabelle
  imports Main "HOL-Library.Option_ord" "HOL-Library.Product_Lexorder"
begin

section \<open>Dates, errors and tables\<close>

text \<open>
  A \<^verbatim>\<open>datetime.date\<close> is its proleptic Gregorian ordinal (\<^verbatim>\<open>date.toordinal()\<close>),
  so \<^verbatim>\<open>d + timedelta(days=k)\<close> is \<open>d + k\<close> and \<^verbatim>\<open>(e - s).days\<close> is \<open>e - s\<close>.
  Ordinal 1 is Monday 0001-01-01, hence \<^verbatim>\<open>d.weekday() = (d + 6) mod 7\<close>.
  \<^verbatim>\<open>strftime('%A')\<close> is modelled for the English (C) locale.
\<close>

type_synonym pydate = int

datatype error = ValueError | IndexError | KeyError | TypeError

definition weekday_names :: "string list" where
  "weekday_names =
     [''Monday'', ''Tuesday'', ''Wednesday'', ''Thursday'', ''Friday'', ''Saturday'', ''Sunday'']"

definition strftime_A :: "pydate \<Rightarrow> string" where
  "strftime_A d = weekday_names ! nat ((d + 6) mod 7)"

text \<open>
  One row of the recipe sheet, indexed by \<^verbatim>\<open>row_number\<close>. \<^verbatim>\<open>last_date_on_menu\<close> is
  \<open>None\<close> for \<^verbatim>\<open>NaT\<close>.
\<close>

record recipe_row =
  row_number :: int
  recipe :: string
  description :: string
  difficulty :: string
  last_date_on_menu :: "pydate option"

text \<open>
  One row of \<^verbatim>\<open>events_df\<close> (index \<^verbatim>\<open>date\<close>), and of \<^verbatim>\<open>weekmenu_df\<close>, its copy with the
  columns \<^verbatim>\<open>recipe\<close> and \<^verbatim>\<open>description\<close> (\<open>None\<close> is \<^verbatim>\<open>NaN\<close>). In \<^verbatim>\<open>events_df\<close> every row
  has its weekday's name; in \<^verbatim>\<open>weekmenu_df\<close> a row added by an assignment has none.
\<close>

record 'w frame_row =
  date :: pydate
  events_cal_1 :: "string option"
  events_cal_2 :: "string option"
  weekday :: 'w

type_synonym event_row = "string frame_row"

record menu_row = "string option frame_row" +
  wm_recipe :: "string option"
  wm_description :: "string option"

text \<open>The body of a Google Calendar insert request.\<close>

record calendar_event =
  summary :: "string option"
  ev_description :: "string option"
  start_date :: pydate
  start_timeZone :: string
  end_date :: pydate
  end_timeZone :: string

text \<open>
  What the run reads and changes outside its local variables: the module globals
  \<^verbatim>\<open>recipes_df\<close> and \<^verbatim>\<open>eligible_recipes\<close>, numpy's random generator (the sequence of its
  future draws), the order numpy's sort gives to equal keys (see \<open>candidates\<close>), and the
  two write interfaces, each as the log of the requests made:
  \<^verbatim>\<open>spreadsheets().values().update\<close> (row number and date written to column F) and
  \<^verbatim>\<open>events().insert\<close>. A function that can raise returns its error together with the
  world at the moment of the raise, so the writes made before it stay visible.
\<close>

record world =
  recipes_df :: "recipe_row list"
  eligible_recipes :: "recipe_row list"
  rng :: "nat \<Rightarrow> nat"
  tie_rank :: "recipe_row list \<Rightarrow> nat \<Rightarrow> nat"
  sheet_updates :: "(int \<times> pydate) list"
  calendar_inserts :: "calendar_event list"

section \<open>Recipes\<close>

text \<open>
  \<^verbatim>\<open>get_recipes\<close>, after the sheet's values are parsed into rows:
  \<^verbatim>\<open>recipes_df[(recipes_df.last_date_on_menu < PREV_WEEK) | np.isnat(...)]\<close>.
  A comparison with \<^verbatim>\<open>NaT\<close> is false.
\<close>

definition get_recipes :: "recipe_row list \<Rightarrow> pydate \<Rightarrow> recipe_row list \<times> recipe_row list" where
  "get_recipes rows PREV_WEEK =
     (rows,
      filter (\<lambda>r. (case last_date_on_menu r of None \<Rightarrow> False | Some d \<Rightarrow> d < PREV_WEEK)
                   \<or> last_date_on_menu r = None) rows)"

text \<open>
  \<^verbatim>\<open>np.random.choice(a)\<close>: raises on an empty array, otherwise returns the element at a
  position drawn uniformly from \<open>{0..<length a}\<close>; the draw is the generator's next number
  modulo the length.
\<close>

definition random_choice :: "int list \<Rightarrow> world \<Rightarrow> (error + int) \<times> world" where
  "random_choice a w =
     (if a = [] then (Inl ValueError, w)
      else (Inr (a ! (rng w 0 mod length a)), w\<lparr>rng := (\<lambda>n. rng w (Suc n))\<rparr>))"

text \<open>
  \<^verbatim>\<open>eligible_recipes.loc[choice_idx, col]\<close> as a scalar: the label must be in the index, and
  a label carried by several rows gives a Series, which the scalar assignment into
  \<^verbatim>\<open>weekmenu_df\<close> rejects.
\<close>

definition loc_row :: "recipe_row list \<Rightarrow> int \<Rightarrow> error + recipe_row" where
  "loc_row df k =
     (case filter (\<lambda>r. row_number r = k) df of
        [] \<Rightarrow> Inl KeyError
      | [r] \<Rightarrow> Inr r
      | _ \<Rightarrow> Inl ValueError)"

text \<open>
  \<^verbatim>\<open>weekmenu_df.loc[idx, 'recipe'] = v; weekmenu_df.loc[idx, 'description'] = u\<close>. The two
  cells are set in every row with the label \<open>idx\<close>; when no row has it, the first
  assignment adds a row with that label and \<^verbatim>\<open>NaN\<close> in the other columns.
\<close>

definition set_menu :: "pydate \<Rightarrow> string \<Rightarrow> string \<Rightarrow> menu_row list \<Rightarrow> menu_row list" where
  "set_menu idx v u weekmenu_df =
     (if idx \<in> date ` set weekmenu_df then
        map (\<lambda>m. if date m = idx then m\<lparr>wm_recipe := Some v, wm_description := Some u\<rparr> else m)
          weekmenu_df
      else
        weekmenu_df @
          [\<lparr>date = idx, events_cal_1 = None, events_cal_2 = None, weekday = None,
            wm_recipe = Some v, wm_description = Some u\<rparr>])"

text \<open>
  \<^verbatim>\<open>choose_recipe(difficulty, idx, weekmenu_df, eligible_recipes)\<close>. The query string is the
  source's: \<^verbatim>\<open>"difficulty == 'difficult'"\<close> compares the column \<^verbatim>\<open>difficulty\<close> with a
  literal; the parameter \<^verbatim>\<open>difficulty\<close> does not occur in it.
  \<^verbatim>\<open>sort_values(..., na_position='first')\<close> puts the rows without a date first, in the order
  of the frame, and the others after them by date. Its default sort is not stable: the
  order among rows with the same date is the library's. It is the parameter \<open>tie\<close>, which
  gives every position of the frame being sorted a rank; rows with the same date and rank
  keep the order of the frame. \<^verbatim>\<open>drop(choice_idx, inplace=True)\<close> removes every row with
  that label.
\<close>

definition candidates :: "(recipe_row list \<Rightarrow> nat \<Rightarrow> nat) \<Rightarrow> recipe_row list \<Rightarrow> int list" where
  "candidates tie eligible =
     (let rows = filter (\<lambda>r. difficulty r = ''difficult'') eligible in
      take 5 (map (\<lambda>p. row_number (snd p))
        (sort_key (\<lambda>p. case last_date_on_menu (snd p) of
                          None \<Rightarrow> (None, 0)
                        | Some d \<Rightarrow> (Some d, tie rows (fst p)))
           (enumerate 0 rows))))"

definition choose_recipe ::
  "string \<Rightarrow> pydate \<Rightarrow> menu_row list \<Rightarrow> world \<Rightarrow> (error + int \<times> menu_row list) \<times> world" where
  "choose_recipe difficulty_arg idx weekmenu_df w =
     (case random_choice (candidates (tie_rank w) (eligible_recipes w)) w of
        (Inl e, w1) \<Rightarrow> (Inl e, w1)
      | (Inr choice_idx, w1) \<Rightarrow>
          (case loc_row (eligible_recipes w1) choice_idx of
             Inl e \<Rightarrow> (Inl e, w1)
           | Inr r \<Rightarrow>
               (Inr (choice_idx, set_menu idx (recipe r) (description r) weekmenu_df),
                w1\<lparr>eligible_recipes :=
                     filter (\<lambda>x. row_number x \<noteq> choice_idx) (eligible_recipes w1)\<rparr>)))"

text \<open>
  \<^verbatim>\<open>update_sheet(service, row_number, date, spreadsheetId)\<close>: one update request for cell
  \<^verbatim>\<open>recepten!F<row_number>\<close>. The request itself is taken to succeed.
\<close>

definition update_sheet :: "int \<Rightarrow> pydate \<Rightarrow> world \<Rightarrow> world" where
  "update_sheet row d w = w\<lparr>sheet_updates := sheet_updates w @ [(row, d)]\<rparr>"

text \<open>
  \<^verbatim>\<open>x in free_events\<close> for a label that may be \<^verbatim>\<open>NaN\<close>: \<^verbatim>\<open>NaN\<close> equals no string.
\<close>

definition in_free :: "string option \<Rightarrow> string list \<Rightarrow> bool" where
  "in_free x free_events = (case x of None \<Rightarrow> False | Some s \<Rightarrow> s \<in> set free_events)"

text \<open>
  The body of the loop of \<^verbatim>\<open>generate_weekmenu\<close> for one row \<open>r\<close> of \<^verbatim>\<open>events_df\<close>, with its
  three copies of the call of \<^verbatim>\<open>choose_recipe\<close> followed by \<^verbatim>\<open>update_sheet\<close>. The callee is
  the parameter \<open>pick\<close>, which \<open>generate_weekmenu\<close> below sets to \<open>choose_recipe\<close>:
  that keeps the argument of each call in view. \<^verbatim>\<open>i.strftime('%d-%m-%Y')\<close> is kept as the
  date \<open>date r\<close> it renders.
\<close>

type_synonym chooser =
  "string \<Rightarrow> pydate \<Rightarrow> menu_row list \<Rightarrow> world \<Rightarrow> (error + int \<times> menu_row list) \<times> world"

definition menu_step ::
  "chooser \<Rightarrow> (string \<rightharpoonup> string) \<Rightarrow> string list \<Rightarrow> event_row \<Rightarrow> menu_row list \<Rightarrow> world
     \<Rightarrow> (error + menu_row list) \<times> world" where
  "menu_step pick traditions free_events r weekmenu_df w =
     (if weekday r \<in> dom traditions then
        (Inr (set_menu (date r) (the (traditions (weekday r))) [] weekmenu_df), w)
      else if weekday r \<in> set [''Saturday'', ''Sunday''] then
        (case pick ''difficult'' (date r) weekmenu_df w of
           (Inl e, w1) \<Rightarrow> (Inl e, w1)
         | (Inr (row, wm1), w1) \<Rightarrow> (Inr wm1, update_sheet row (date r) w1))
      else if in_free (events_cal_1 r) free_events \<or> in_free (events_cal_2 r) free_events
              \<or> events_cal_1 r = None \<or> events_cal_2 r = None then
        (case pick ''medium'' (date r) weekmenu_df w of
           (Inl e, w1) \<Rightarrow> (Inl e, w1)
         | (Inr (row, wm1), w1) \<Rightarrow> (Inr wm1, update_sheet row (date r) w1))
      else
        (case pick ''easy'' (date r) weekmenu_df w of
           (Inl e, w1) \<Rightarrow> (Inl e, w1)
         | (Inr (row, wm1), w1) \<Rightarrow> (Inr wm1, update_sheet row (date r) w1)))"

fun menu_loop ::
  "chooser \<Rightarrow> (string \<rightharpoonup> string) \<Rightarrow> string list \<Rightarrow> event_row list \<Rightarrow> menu_row list \<Rightarrow> world
     \<Rightarrow> (error + menu_row list) \<times> world" where
  "menu_loop pick traditions free_events [] weekmenu_df w = (Inr weekmenu_df, w)"
| "menu_loop pick traditions free_events (r # rs) weekmenu_df w =
     (case menu_step pick traditions free_events r weekmenu_df w of
        (Inl e, w1) \<Rightarrow> (Inl e, w1)
      | (Inr wm1, w1) \<Rightarrow> menu_loop pick traditions free_events rs wm1 w1)"

text \<open>\<^verbatim>\<open>events_df.copy()\<close>, with the two columns the loop adds still empty.\<close>

definition copy_row :: "event_row \<Rightarrow> menu_row" where
  "copy_row r = \<lparr>date = date r, events_cal_1 = events_cal_1 r, events_cal_2 = events_cal_2 r,
                  weekday = Some (weekday r), wm_recipe = None, wm_description = None\<rparr>"

definition generate_weekmenu ::
  "event_row list \<Rightarrow> (string \<rightharpoonup> string) \<Rightarrow> string list \<Rightarrow> world
     \<Rightarrow> (error + menu_row list) \<times> world" where
  "generate_weekmenu events_df traditions free_events w =
     menu_loop choose_recipe traditions free_events events_df (map copy_row events_df) w"

section \<open>Calendar\<close>

text \<open>
  An event of the Calendar API as far as the program reads it: \<^verbatim>\<open>start\<close> and \<^verbatim>\<open>end\<close> with
  their optional keys \<^verbatim>\<open>dateTime\<close> and \<^verbatim>\<open>date\<close>, and the optional \<^verbatim>\<open>summary\<close>.
\<close>

record time_point =
  tp_dateTime :: "string option"
  tp_date :: "string option"

record api_event =
  ev_start :: time_point
  ev_end :: time_point
  ev_summary :: "string option"

text \<open>\<^verbatim>\<open>event[timepoint].get('dateTime', event[timepoint].get('date'))\<close>\<close>

definition get_event_date :: "time_point \<Rightarrow> string option" where
  "get_event_date tp = (case tp_dateTime tp of Some s \<Rightarrow> Some s | None \<Rightarrow> tp_date tp)"

text \<open>
  \<^verbatim>\<open>datetime.strptime(x, '%Y-%m-%d').date()\<close>. The library's parser is the parameter
  \<open>strptime\<close> (\<open>None\<close> where it raises \<^verbatim>\<open>ValueError\<close>); \<^verbatim>\<open>None\<close> in place of a string
  raises \<^verbatim>\<open>TypeError\<close>.
\<close>

definition parse_date :: "(string \<Rightarrow> pydate option) \<Rightarrow> string option \<Rightarrow> error + pydate" where
  "parse_date strptime x =
     (case x of
        None \<Rightarrow> Inl TypeError
      | Some s \<Rightarrow> (case strptime s of None \<Rightarrow> Inl ValueError | Some d \<Rightarrow> Inr d))"

text \<open>
  The loop of \<^verbatim>\<open>unfold_events_list\<close> with its accumulator \<^verbatim>\<open>new_events_list\<close>. The inner
  loop over \<^verbatim>\<open>range(delta_days)\<close> appends the days that pass the test, in order.
  \<^verbatim>\<open>datetime.now().date()\<close> is the parameter \<open>today\<close>, the same at every read.
\<close>

fun unfold_events_loop ::
  "(string \<Rightarrow> pydate option) \<Rightarrow> pydate \<Rightarrow> (string option \<times> string option \<times> string) list
     \<Rightarrow> (pydate \<times> string) list \<Rightarrow> error + (pydate \<times> string) list" where
  "unfold_events_loop strptime today [] new_events_list = Inr new_events_list"
| "unfold_events_loop strptime today (e # es) new_events_list =
     (case parse_date strptime (fst e) of
        Inl x \<Rightarrow> Inl x
      | Inr start \<Rightarrow>
          (case parse_date strptime (fst (snd e)) of
             Inl x \<Rightarrow> Inl x
           | Inr end' \<Rightarrow>
               (let delta_days = end' - start in
                if delta_days > 1 then
                  unfold_events_loop strptime today es
                    (new_events_list @
                       map (\<lambda>d. (start + d, snd (snd e)))
                         (filter (\<lambda>d. start + d \<ge> today \<and> start + d \<le> today + 6)
                            [0..delta_days - 1]))
                else
                  unfold_events_loop strptime today es
                    (new_events_list @ [(start, snd (snd e))]))))"

definition unfold_events_list ::
  "(string \<Rightarrow> pydate option) \<Rightarrow> pydate \<Rightarrow> (string option \<times> string option \<times> string) list
     \<Rightarrow> error + (pydate \<times> string) list" where
  "unfold_events_list strptime today events_list =
     unfold_events_loop strptime today events_list []"

text \<open>
  The list comprehension of \<^verbatim>\<open>get_events_by_calendarId\<close> over the items the API returned:
  \<^verbatim>\<open>e['summary']\<close> raises \<^verbatim>\<open>KeyError\<close> on an event without one. \<^verbatim>\<open>str.upper\<close> is the
  parameter \<open>upper\<close>.
\<close>

fun events_tuples ::
  "(string \<Rightarrow> string) \<Rightarrow> string list \<Rightarrow> api_event list
     \<Rightarrow> error + (string option \<times> string option \<times> string) list" where
  "events_tuples upper allEvents [] = Inr []"
| "events_tuples upper allEvents (e # es) =
     (case ev_summary e of
        None \<Rightarrow> Inl KeyError
      | Some s \<Rightarrow>
          (case events_tuples upper allEvents es of
             Inl x \<Rightarrow> Inl x
           | Inr ts \<Rightarrow>
               Inr (if upper s \<in> set allEvents
                    then (get_event_date (ev_start e), get_event_date (ev_end e), upper s) # ts
                    else ts)))"

definition get_events_by_calendarId ::
  "(string \<Rightarrow> pydate option) \<Rightarrow> (string \<Rightarrow> string) \<Rightarrow> pydate \<Rightarrow> api_event list \<Rightarrow> string list
     \<Rightarrow> error + (pydate \<times> string) list" where
  "get_events_by_calendarId strptime upper today items allEvents =
     (case events_tuples upper allEvents items of
        Inl x \<Rightarrow> Inl x
      | Inr events_list \<Rightarrow> unfold_events_list strptime today events_list)"

text \<open>\<^verbatim>\<open>items[-1]['start']['date'][:10]\<close>, parsed.\<close>

definition get_date_last_event ::
  "(string \<Rightarrow> pydate option) \<Rightarrow> api_event list \<Rightarrow> error + pydate" where
  "get_date_last_event strptime items =
     (if items = [] then Inl IndexError
      else (case tp_date (ev_start (last items)) of
              None \<Rightarrow> Inl KeyError
            | Some s \<Rightarrow> parse_date strptime (Some (take 10 s))))"

text \<open>
  \<^verbatim>\<open>events_df_1.merge(events_df_2, on='date', how='outer')\<close>: every row of the first
  list with each row of the second list on the same date, or with \<^verbatim>\<open>NaN\<close> when there is
  none, and the rows of the second list whose date the first list lacks. The order of the
  rows is the inputs' (the caller sorts).
\<close>

definition merge_outer ::
  "(pydate \<times> string) list \<Rightarrow> (pydate \<times> string) list
     \<Rightarrow> (pydate \<times> string option \<times> string option) list" where
  "merge_outer l1 l2 =
     concat (map (\<lambda>x. let ms = filter (\<lambda>y. fst y = fst x) l2 in
                        if ms = [] then [(fst x, Some (snd x), None)]
                        else map (\<lambda>y. (fst x, Some (snd x), Some (snd y))) ms) l1)
     @ map (\<lambda>y. (fst y, None, Some (snd y))) (filter (\<lambda>y. fst y \<notin> fst ` set l1) l2)"

text \<open>
  \<^verbatim>\<open>events_df.reindex(new_idx)\<close>: pandas refuses to reindex an axis with duplicate labels
  (\<^verbatim>\<open>ValueError\<close>); otherwise each new label takes its row, or a row of \<^verbatim>\<open>NaN\<close>.
\<close>

definition reindex ::
  "(pydate \<times> string option \<times> string option) list \<Rightarrow> pydate list
     \<Rightarrow> error + (pydate \<times> string option \<times> string option) list" where
  "reindex df new_idx =
     (if \<not> distinct (map fst df) \<and> new_idx \<noteq> [] then Inl ValueError
      else Inr (map (\<lambda>d. case find (\<lambda>row. fst row = d) df of
                            None \<Rightarrow> (d, None, None)
                          | Some row \<Rightarrow> row) new_idx))"

text \<open>
  \<^verbatim>\<open>create_events_df\<close>, reading the globals \<^verbatim>\<open>START_DAY\<close> and \<^verbatim>\<open>NEXT_WEEK\<close>:
  \<^verbatim>\<open>pd.period_range(START_DAY, NEXT_WEEK, freq='D')\<close> is every day from the one to the
  other, both included.
\<close>

definition create_events_df ::
  "(pydate \<times> string) list \<Rightarrow> (pydate \<times> string) list \<Rightarrow> pydate \<Rightarrow> pydate
     \<Rightarrow> error + event_row list" where
  "create_events_df events_list_1 events_list_2 START_DAY NEXT_WEEK =
     (let events_df = sort_key fst (merge_outer events_list_1 events_list_2);
          new_idx = [START_DAY..NEXT_WEEK]
      in case reindex events_df new_idx of
           Inl e \<Rightarrow> Inl e
         | Inr rows \<Rightarrow>
             Inr (map (\<lambda>row. \<lparr>date = fst row, events_cal_1 = fst (snd row),
                               events_cal_2 = snd (snd row), weekday = strftime_A (fst row)\<rparr>)
                    rows))"

text \<open>
  \<^verbatim>\<open>add_weekmenu_to_calendar\<close>: one insert request per row, in order; \<^verbatim>\<open>start\<close> and
  \<^verbatim>\<open>end\<close> both carry \<^verbatim>\<open>i.date().isoformat()\<close>, kept as the date it renders.
\<close>

definition menu_event :: "menu_row \<Rightarrow> calendar_event" where
  "menu_event r =
     \<lparr>summary = wm_recipe r, ev_description = wm_description r,
      start_date = date r, start_timeZone = ''Europe/Brussels'',
      end_date = date r, end_timeZone = ''Europe/Brussels''\<rparr>"

definition add_weekmenu_to_calendar :: "menu_row list \<Rightarrow> world \<Rightarrow> world" where
  "add_weekmenu_to_calendar weekmenu_df w =
     w\<lparr>calendar_inserts := calendar_inserts w @ map menu_event weekmenu_df\<rparr>"

section \<open>The run\<close>

text \<open>
  The options of \<^verbatim>\<open>config\<close> the run reads, and what the outside gives it: the current
  date, the library functions, the items the three calendars list and the parsed rows of
  the sheet.
\<close>

record config =
  NB_DAYS_BEFORE :: int
  ALL_EVENTS :: "string list"
  TRADITIONS :: "string \<rightharpoonup> string"
  FREE_EVENTS :: "string list"

record env =
  env_today :: pydate
  env_strptime :: "string \<Rightarrow> pydate option"
  env_upper :: "string \<Rightarrow> string"
  weekmenu_items :: "api_event list"
  calendar_1_items :: "api_event list"
  calendar_2_items :: "api_event list"
  sheet_rows :: "recipe_row list"

definition START_DAY_of :: "pydate \<Rightarrow> pydate" where
  "START_DAY_of DATE_LAST_RECIPE = DATE_LAST_RECIPE + 1"

definition NEXT_WEEK_of :: "pydate \<Rightarrow> pydate" where
  "NEXT_WEEK_of DATE_LAST_RECIPE = START_DAY_of DATE_LAST_RECIPE + 6"

definition PREV_WEEK_of :: "pydate \<Rightarrow> pydate" where
  "PREV_WEEK_of DATE_LAST_RECIPE = START_DAY_of DATE_LAST_RECIPE + (- 7)"

text \<open>
  The \<^verbatim>\<open>__main__\<close> block. It returns the line it prints. \<^verbatim>\<open>format_date\<close> renders the three
  dates for the requests; the dates themselves are used here.
\<close>

definition main :: "config \<Rightarrow> env \<Rightarrow> world \<Rightarrow> (error + string) \<times> world" where
  "main cfg ev w =
     (case get_date_last_event (env_strptime ev) (weekmenu_items ev) of
        Inl e \<Rightarrow> (Inl e, w)
      | Inr DATE_LAST_RECIPE \<Rightarrow>
          (let START_DAY = START_DAY_of DATE_LAST_RECIPE;
               NEXT_WEEK = NEXT_WEEK_of DATE_LAST_RECIPE;
               PREV_WEEK = PREV_WEEK_of DATE_LAST_RECIPE;
               w1 = w\<lparr>recipes_df := fst (get_recipes (sheet_rows ev) PREV_WEEK),
                       eligible_recipes := snd (get_recipes (sheet_rows ev) PREV_WEEK)\<rparr>
           in if DATE_LAST_RECIPE - NB_DAYS_BEFORE cfg < env_today ev then
                (case get_events_by_calendarId (env_strptime ev) (env_upper ev) (env_today ev)
                        (calendar_1_items ev) (ALL_EVENTS cfg) of
                   Inl e \<Rightarrow> (Inl e, w1)
                 | Inr events_list_1 \<Rightarrow>
                     (case get_events_by_calendarId (env_strptime ev) (env_upper ev)
                             (env_today ev) (calendar_2_items ev) (ALL_EVENTS cfg) of
                        Inl e \<Rightarrow> (Inl e, w1)
                      | Inr events_list_2 \<Rightarrow>
                          (case create_events_df events_list_1 events_list_2 START_DAY NEXT_WEEK of
                             Inl e \<Rightarrow> (Inl e, w1)
                           | Inr events_df \<Rightarrow>
                               (case generate_weekmenu events_df (TRADITIONS cfg)
                                       (FREE_EVENTS cfg) w1 of
                                  (Inl e, w2) \<Rightarrow> (Inl e, w2)
                                | (Inr weekmenu_df, w2) \<Rightarrow>
                                    (Inr ''Week menu is added to Google Calendar'',
                                     add_weekmenu_to_calendar weekmenu_df w2)))))
              else (Inr ''Program stopped. Last week menu is not finished yet.'', w1)))"

section \<open>The specification's wording, for comparison\<close>

text \<open>
  The slot rule as the specification words it: a tradition weekday needs no tier
  (\<open>None\<close>); otherwise Saturday and Sunday ask for \<^verbatim>\<open>difficult\<close>, a slot with a free label
  or a missing label on either calendar for \<^verbatim>\<open>medium\<close>, every other slot for \<^verbatim>\<open>easy\<close>.
\<close>

definition spec_requested_tier ::
  "(string \<rightharpoonup> string) \<Rightarrow> string list \<Rightarrow> event_row \<Rightarrow> string option" where
  "spec_requested_tier traditions free_events r =
     (if traditions (weekday r) \<noteq> None then None
      else if weekday r = ''Saturday'' \<or> weekday r = ''Sunday'' then Some ''difficult''
      else if events_cal_1 r \<in> Some ` set free_events \<or> events_cal_2 r \<in> Some ` set free_events
              \<or> events_cal_1 r = None \<or> events_cal_2 r = None then Some ''medium''
      else Some ''easy'')"

text \<open>
  Assigning a recipe to the slot of a date: that slot's recipe becomes \<open>name\<close> and its
  description \<open>descr\<close>; its date, labels and weekday, and every other slot, stay as they
  are.
\<close>

definition spec_assign :: "pydate \<Rightarrow> string \<Rightarrow> string \<Rightarrow> menu_row list \<Rightarrow> menu_row list" where
  "spec_assign d name descr slots =
     map (\<lambda>m. if date m = d
               then \<lparr>date = date m, events_cal_1 = events_cal_1 m, events_cal_2 = events_cal_2 m,
                     weekday = weekday m, wm_recipe = Some name, wm_description = Some descr\<rparr>
               else m) slots"

text \<open>
  One slot of the specification's state machine: the tradition recipe with the empty
  description and the world untouched (no draw, no update), or one pick with the
  requested tier followed by the update of the store.
\<close>

definition spec_slot ::
  "chooser \<Rightarrow> (string \<rightharpoonup> string) \<Rightarrow> string list \<Rightarrow> event_row \<Rightarrow> menu_row list \<Rightarrow> world
     \<Rightarrow> (error + menu_row list) \<times> world" where
  "spec_slot pick traditions free_events r weekmenu_df w =
     (case spec_requested_tier traditions free_events r of
        None \<Rightarrow> (Inr (spec_assign (date r) (the (traditions (weekday r))) [] weekmenu_df), w)
      | Some tier \<Rightarrow>
          (case pick tier (date r) weekmenu_df w of
             (Inl e, w1) \<Rightarrow> (Inl e, w1)
           | (Inr (row, wm1), w1) \<Rightarrow> (Inr wm1, update_sheet row (date r) w1)))"

fun spec_plan ::
  "chooser \<Rightarrow> (string \<rightharpoonup> string) \<Rightarrow> string list \<Rightarrow> event_row list \<Rightarrow> menu_row list \<Rightarrow> world
     \<Rightarrow> (error + menu_row list) \<times> world" where
  "spec_plan pick traditions free_events [] weekmenu_df w = (Inr weekmenu_df, w)"
| "spec_plan pick traditions free_events (r # rs) weekmenu_df w =
     (case spec_slot pick traditions free_events r weekmenu_df w of
        (Inl e, w1) \<Rightarrow> (Inl e, w1)
      | (Inr wm1, w1) \<Rightarrow> spec_plan pick traditions free_events rs wm1 w1)"

text \<open>
  A pick that leaves the dates of the plan's slots as they are, whenever it is asked for
  a date the plan has.
\<close>

definition keeps_dates :: "chooser \<Rightarrow> bool" where
  "keeps_dates pick =
     (\<forall>tier idx slots w. idx \<in> date ` set slots \<longrightarrow>
        (case fst (pick tier idx slots w) of
           Inl e \<Rightarrow> True
         | Inr res \<Rightarrow> map date (snd res) = map date slots))"

text \<open>
  The candidate set of the specification's \<^verbatim>\<open>pick(difficulty, ...)\<close>: the eligible recipes
  of the given tier, least recently used first (never used before all), at most five.
\<close>

definition spec_candidates :: "string \<Rightarrow> recipe_row list \<Rightarrow> int list" where
  "spec_candidates tier eligible =
     take 5 (map row_number
       (sort_key last_date_on_menu (filter (\<lambda>r. difficulty r = tier) eligible)))"

text \<open>
  The entries the specification asks of one event with start \<open>start\<close>, end \<open>end'\<close> and label
  \<open>label\<close>: with a span of more than one day, one entry for every day from the start up to
  the day before the end (the end is exclusive: a span of \<open>n\<close> days covers \<open>n\<close> days), kept
  when the day lies in the seven days from \<open>window_start\<close>; otherwise the one entry at the
  start.
\<close>

definition spec_entries :: "pydate \<Rightarrow> pydate \<times> pydate \<times> string \<Rightarrow> (pydate \<times> string) list" where
  "spec_entries window_start ev =
     (case ev of (start, end', label) \<Rightarrow>
        if end' - start > 1
        then map (\<lambda>d. (d, label))
               (filter (\<lambda>d. window_start \<le> d \<and> d \<le> window_start + 6) [start..end' - 1])
        else [(start, label)])"

text \<open>
  The slot of day \<open>d\<close> in the merged table: the label each calendar has on that day
  (\<open>None\<close> when it has none) and the name of the weekday.
\<close>

definition day_row :: "(pydate \<times> string) list \<Rightarrow> (pydate \<times> string) list \<Rightarrow> pydate \<Rightarrow> event_row" where
  "day_row l1 l2 d = \<lparr>date = d, events_cal_1 = map_of l1 d, events_cal_2 = map_of l2 d,
                       weekday = strftime_A d\<rparr>"

text \<open>
  The rows the store was told about so far are pairwise different, and none of them is
  still among the eligible recipes.
\<close>

definition rows_apart :: "world \<Rightarrow> bool" where
  "rows_apart w = (distinct (map fst (sheet_updates w))
     \<and> fst ` set (sheet_updates w) \<inter> row_number ` set (eligible_recipes w) = {})"

section \<open>Example data\<close>

definition soup :: recipe_row where
  "soup = \<lparr>row_number = 2, recipe = ''soup'', description = ''quick'',
            difficulty = ''easy'', last_date_on_menu = None\<rparr>"

definition roast :: recipe_row where
  "roast = \<lparr>row_number = 3, recipe = ''roast'', description = ''slow'',
             difficulty = ''difficult'', last_date_on_menu = None\<rparr>"

definition stew :: recipe_row where
  "stew = \<lparr>row_number = 4, recipe = ''stew'', description = ''long'',
            difficulty = ''difficult'', last_date_on_menu = Some 737400\<rparr>"

text \<open>
  A world with the given pool, a generator that always draws 0, a sort that keeps equal
  dates in the order of the frame, and no request made.
\<close>

definition world0 :: "recipe_row list \<Rightarrow> world" where
  "world0 pool = \<lparr>recipes_df = pool, eligible_recipes = pool, rng = (\<lambda>n. 0),
                   tie_rank = (\<lambda>rows i. 0), sheet_updates = [], calendar_inserts = []\<rparr>"

text \<open>Monday 2020-01-06 (ordinal 737430) with a fixed, non-free event on both calendars.\<close>

definition monday_busy :: event_row where
  "monday_busy = \<lparr>date = 737430, events_cal_1 = Some ''WORK'', events_cal_2 = Some ''WORK'',
                   weekday = ''Monday''\<rparr>"

definition saturday_empty :: event_row where
  "saturday_empty = \<lparr>date = 737435, events_cal_1 = None, events_cal_2 = None,
                      weekday = ''Saturday''\<rparr>"

text \<open>
  A run three days before the end of the running menu: today is 2020-01-06, the last
  menu event is on 2020-01-09, and the next menu may be made two days before the end.
\<close>

definition example_config :: config where
  "example_config = \<lparr>NB_DAYS_BEFORE = 2, ALL_EVENTS = [''WORK'', ''FREE''],
                      TRADITIONS = [''Friday'' \<mapsto> ''fries''], FREE_EVENTS = [''FREE'']\<rparr>"

definition example_strptime :: "string \<Rightarrow> pydate option" where
  "example_strptime =
     map_of [(''2020-01-06'', 737430), (''2020-01-07'', 737431), (''2020-01-09'', 737433),
             (''2020-01-13'', 737437), (''2020-01-17'', 737441)]"

definition example_env :: env where
  "example_env =
     \<lparr>env_today = 737430, env_strptime = example_strptime, env_upper = (\<lambda>s. s),
      weekmenu_items =
        [\<lparr>ev_start = \<lparr>tp_dateTime = None, tp_date = Some ''2020-01-09''\<rparr>,
          ev_end = \<lparr>tp_dateTime = None, tp_date = Some ''2020-01-09''\<rparr>,
          ev_summary = Some ''fries''\<rparr>],
      calendar_1_items = [], calendar_2_items = [], sheet_rows = [soup, roast, stew]\<rparr>"

text \<open>A chooser that records the tier it is asked for as the recipe of the slot.\<close>

definition echo_tier :: chooser where
  "echo_tier tier idx weekmenu_df w =
     (Inr (0, map (\<lambda>m. if date m = idx
                        then m\<lparr>wm_recipe := Some tier, wm_description := Some ''asked''\<rparr>
                        else m) weekmenu_df), w)"

text \<open>Five slots: a busy Monday, a Saturday, two weekdays with a free or missing label, a Friday.\<close>

definition example_week :: "event_row list" where
  "example_week =
     [monday_busy, saturday_empty,
      \<lparr>date = 737431, events_cal_1 = Some ''FREE'', events_cal_2 = Some ''WORK'',
       weekday = ''Tuesday''\<rparr>,
      \<lparr>date = 737432, events_cal_1 = Some ''WORK'', events_cal_2 = None,
       weekday = ''Wednesday''\<rparr>,
      \<lparr>date = 737434, events_cal_1 = None, events_cal_2 = None, weekday = ''Friday''\<rparr>]"

definition weekend :: "event_row list" where
  "weekend = [saturday_empty,
     \<lparr>date = 737436, events_cal_1 = None, events_cal_2 = None, weekday = ''Sunday''\<rparr>]"

text \<open>
  Two per-day event lists for the week from Monday 2020-01-06, and a list with two events
  on that Monday.
\<close>

definition example_list_1 :: "(pydate \<times> string) list" where
  "example_list_1 = [(737430, ''WORK''), (737431, ''FREE'')]"

definition example_list_2 :: "(pydate \<times> string) list" where
  "example_list_2 = [(737431, ''WORK''), (737440, ''FREE'')]"

definition crowded_list :: "(pydate \<times> string) list" where
  "crowded_list = [(737430, ''WORK''), (737430, ''FREE'')]"

text \<open>
  What a calendar lists for a day with two labelled one-day events, and for an event of
  four days, 2020-01-13 to 2020-01-16 (its end, the 17th, is exclusive).
\<close>

definition all_day :: "string \<Rightarrow> string \<Rightarrow> string \<Rightarrow> api_event" where
  "all_day first after label =
     \<lparr>ev_start = \<lparr>tp_dateTime = None, tp_date = Some first\<rparr>,
      ev_end = \<lparr>tp_dateTime = None, tp_date = Some after\<rparr>,
      ev_summary = Some label\<rparr>"

definition crowded_items :: "api_event list" where
  "crowded_items = [all_day ''2020-01-06'' ''2020-01-07'' ''WORK'',
                    all_day ''2020-01-06'' ''2020-01-07'' ''FREE'']"

definition long_items :: "api_event list" where
  "long_items = [all_day ''2020-01-13'' ''2020-01-17'' ''WORK'']"

text \<open>An event from 2020-01-06 to 2020-01-09 (three days) and a one-day event.\<close>

definition example_events :: "(string option \<times> string option \<times> string) list" where
  "example_events = [(Some ''2020-01-06'', Some ''2020-01-09'', ''WORK''),
                     (Some ''2020-01-09'', Some ''2020-01-09'', ''FREE'')]"

section \<open>What the pieces do\<close>

lemma in_free_image: "in_free x fe = (x \<in> Some ` set fe)"
  by (cases x) (auto simp: in_free_def)

lemma set_menu_present:
  assumes "idx \<in> date ` set wm"
  shows "set_menu idx v u wm = spec_assign idx v u wm"
  using assms by (simp add: set_menu_def spec_assign_def)

lemma spec_assign_dates: "map date (spec_assign d name descr wm) = map date wm"
  by (induction wm) (simp_all add: spec_assign_def)

lemma menu_step_spec_slot:
  assumes "date r \<in> date ` set wm"
  shows "menu_step pick tr fe r wm w = spec_slot pick tr fe r wm w"
  using set_menu_present[OF assms]
  by (auto simp: menu_step_def spec_slot_def spec_requested_tier_def in_free_image dom_def)

lemma spec_slot_dates:
  assumes "keeps_dates pick" and "date r \<in> date ` set wm"
      and "spec_slot pick tr fe r wm w = (Inr wm1, w1)"
  shows "map date wm1 = map date wm"
proof (cases "spec_requested_tier tr fe r")
  case None
  with assms(3) show ?thesis by (auto simp: spec_slot_def spec_assign_dates)
next
  case (Some tier)
  obtain res v where p: "pick tier (date r) wm w = (res, v)"
    by (cases "pick tier (date r) wm w")
  with Some assms(3) obtain c where res: "res = Inr (c, wm1)"
    by (cases res) (auto simp: spec_slot_def)
  from assms(1,2) have "case fst (pick tier (date r) wm w) of
           Inl e \<Rightarrow> True | Inr res \<Rightarrow> map date (snd res) = map date wm"
    unfolding keeps_dates_def by blast
  with p res show ?thesis by simp
qed

lemma menu_loop_spec_plan:
  assumes "keeps_dates pick" and "date ` set rs \<subseteq> date ` set wm"
  shows "menu_loop pick tr fe rs wm w = spec_plan pick tr fe rs wm w"
  using assms(2)
proof (induction rs arbitrary: wm w)
  case Nil
  show ?case by simp
next
  case (Cons r rs)
  from Cons.prems have here: "date r \<in> date ` set wm"
    and rest: "date ` set rs \<subseteq> date ` set wm" by auto
  have step: "menu_step pick tr fe r wm w = spec_slot pick tr fe r wm w"
    using here by (rule menu_step_spec_slot)
  obtain res w1 where sl: "spec_slot pick tr fe r wm w = (res, w1)"
    by (cases "spec_slot pick tr fe r wm w")
  show ?case
  proof (cases res)
    case (Inl e)
    with step sl show ?thesis by simp
  next
    case (Inr wm1)
    from spec_slot_dates[OF assms(1) here sl[unfolded Inr]]
    have "date ` set wm1 = date ` set wm" by (metis set_map)
    with rest have "date ` set rs \<subseteq> date ` set wm1" by simp
    from Cons.IH[OF this] step sl Inr show ?thesis by simp
  qed
qed

lemma candidates_difficult:
  "set (candidates tie el) \<subseteq> row_number ` {r \<in> set el. difficulty r = ''difficult''}"
proof -
  let ?rows = "filter (\<lambda>r. difficulty r = ''difficult'') el"
  let ?key = "\<lambda>p. case last_date_on_menu (snd p) of
                     None \<Rightarrow> (None, 0::nat)
                   | Some d \<Rightarrow> (Some d, tie ?rows (fst p))"
  have "set (candidates tie el)
          \<subseteq> set (map (\<lambda>p. row_number (snd p)) (sort_key ?key (enumerate 0 ?rows)))"
    unfolding candidates_def Let_def by (rule set_take_subset)
  also have "\<dots> = row_number ` (snd ` set (enumerate 0 ?rows))"
    by (simp add: image_image)
  also have "snd ` set (enumerate 0 ?rows) = set ?rows"
    by (metis map_snd_enumerate set_map)
  finally show ?thesis by simp
qed

lemma candidates_subset: "set (candidates tie el) \<subseteq> row_number ` set el"
  using candidates_difficult[of tie el] by auto

lemma random_choice_Inr:
  assumes "random_choice a w = (Inr c, w')"
  shows "c \<in> set a \<and> w' = w\<lparr>rng := (\<lambda>n. rng w (Suc n))\<rparr>"
  using assms by (auto simp: random_choice_def split: if_splits)

lemma random_choice_Inl:
  assumes "random_choice a w = (Inl e, w')"
  shows "a = [] \<and> w' = w"
  using assms by (auto simp: random_choice_def split: if_splits)

lemma choose_recipe_Inr:
  assumes "choose_recipe t idx wm w = (Inr (c, wm'), w')"
  shows "c \<in> set (candidates (tie_rank w) (eligible_recipes w))
       \<and> eligible_recipes w' = filter (\<lambda>x. row_number x \<noteq> c) (eligible_recipes w)
       \<and> sheet_updates w' = sheet_updates w
       \<and> recipes_df w' = recipes_df w
       \<and> calendar_inserts w' = calendar_inserts w"
proof -
  obtain res w1 where rc: "random_choice (candidates (tie_rank w) (eligible_recipes w)) w = (res, w1)"
    by (cases "random_choice (candidates (tie_rank w) (eligible_recipes w)) w")
  with assms obtain c1 where res: "res = Inr c1"
    by (cases res) (auto simp: choose_recipe_def)
  from rc res have c1: "c1 \<in> set (candidates (tie_rank w) (eligible_recipes w))"
    and w1: "w1 = w\<lparr>rng := (\<lambda>n. rng w (Suc n))\<rparr>"
    using random_choice_Inr by blast+
  from assms rc res show ?thesis
    using c1 w1 by (auto simp: choose_recipe_def split: sum.splits)
qed

lemma choose_recipe_Inl:
  assumes "choose_recipe t idx wm w = (Inl e, w')"
  shows "eligible_recipes w' = eligible_recipes w
       \<and> sheet_updates w' = sheet_updates w
       \<and> recipes_df w' = recipes_df w
       \<and> calendar_inserts w' = calendar_inserts w"
proof -
  obtain res w1 where rc: "random_choice (candidates (tie_rank w) (eligible_recipes w)) w = (res, w1)"
    by (cases "random_choice (candidates (tie_rank w) (eligible_recipes w)) w")
  show ?thesis
  proof (cases res)
    case (Inl x)
    with rc have "w1 = w" using random_choice_Inl by blast
    with assms rc Inl show ?thesis by (auto simp: choose_recipe_def)
  next
    case (Inr c1)
    with rc have "w1 = w\<lparr>rng := (\<lambda>n. rng w (Suc n))\<rparr>" using random_choice_Inr by blast
    with assms rc Inr show ?thesis by (auto simp: choose_recipe_def split: sum.splits)
  qed
qed

lemma menu_step_tradition:
  assumes "weekday r \<in> dom tr"
  shows "menu_step pick tr fe r wm w
           = (Inr (set_menu (date r) (the (tr (weekday r))) [] wm), w)"
  using assms by (simp add: menu_step_def)

lemma menu_step_pick:
  assumes "weekday r \<notin> dom tr"
  shows "\<exists>t. menu_step pick tr fe r wm w =
           (case pick t (date r) wm w of
              (Inl e, w1) \<Rightarrow> (Inl e, w1)
            | (Inr (row, wm1), w1) \<Rightarrow> (Inr wm1, update_sheet row (date r) w1))"
  using assms unfolding menu_step_def by (simp del: set_simps) metis

lemma menu_step_choose_Inr:
  assumes "weekday r \<notin> dom tr"
      and "menu_step choose_recipe tr fe r wm w = (Inr wm', w')"
  shows "\<exists>c. c \<in> set (candidates (tie_rank w) (eligible_recipes w))
           \<and> eligible_recipes w' = filter (\<lambda>x. row_number x \<noteq> c) (eligible_recipes w)
           \<and> sheet_updates w' = sheet_updates w @ [(c, date r)]
           \<and> recipes_df w' = recipes_df w
           \<and> calendar_inserts w' = calendar_inserts w"
proof -
  from menu_step_pick[OF assms(1)] obtain t where
    eq: "menu_step choose_recipe tr fe r wm w =
           (case choose_recipe t (date r) wm w of
              (Inl e, w1) \<Rightarrow> (Inl e, w1)
            | (Inr (row, wm1), w1) \<Rightarrow> (Inr wm1, update_sheet row (date r) w1))" by blast
  obtain res w1 where cr: "choose_recipe t (date r) wm w = (res, w1)"
    by (cases "choose_recipe t (date r) wm w")
  with eq assms(2) obtain c wm1 where res: "res = Inr (c, wm1)"
    by (cases res) auto
  from eq assms(2) cr res have w': "w' = update_sheet c (date r) w1" by simp
  from choose_recipe_Inr[OF cr[unfolded res]] w' show ?thesis
    by (auto simp: update_sheet_def)
qed

lemma menu_step_choose_Inl:
  assumes "menu_step choose_recipe tr fe r wm w = (Inl e, w')"
  shows "weekday r \<notin> dom tr
       \<and> eligible_recipes w' = eligible_recipes w
       \<and> sheet_updates w' = sheet_updates w
       \<and> recipes_df w' = recipes_df w
       \<and> calendar_inserts w' = calendar_inserts w"
proof -
  have nt: "weekday r \<notin> dom tr"
    using assms menu_step_tradition[of r tr choose_recipe fe wm w] by auto
  from menu_step_pick[OF nt] obtain t where
    eq: "menu_step choose_recipe tr fe r wm w =
           (case choose_recipe t (date r) wm w of
              (Inl e, w1) \<Rightarrow> (Inl e, w1)
            | (Inr (row, wm1), w1) \<Rightarrow> (Inr wm1, update_sheet row (date r) w1))" by blast
  obtain res w1 where cr: "choose_recipe t (date r) wm w = (res, w1)"
    by (cases "choose_recipe t (date r) wm w")
  with eq assms have res: "res = Inl e" and w': "w' = w1"
    by (cases res; auto)+
  from choose_recipe_Inl[OF cr[unfolded res]] w' nt show ?thesis by simp
qed

lemma menu_step_rows_apart:
  assumes step: "menu_step choose_recipe tr fe r wm w = (res, w1)"
      and inv: "rows_apart w"
  shows "rows_apart w1"
proof (cases res)
  case (Inl e)
  with step have "eligible_recipes w1 = eligible_recipes w \<and> sheet_updates w1 = sheet_updates w"
    using menu_step_choose_Inl by blast
  with inv show ?thesis by (simp add: rows_apart_def)
next
  case (Inr wm1)
  show ?thesis
  proof (cases "weekday r \<in> dom tr")
    case True
    with step have "w1 = w" by (simp add: menu_step_tradition)
    with inv show ?thesis by simp
  next
    case False
    from menu_step_choose_Inr[OF False step[unfolded Inr]] obtain c where
      c: "c \<in> set (candidates (tie_rank w) (eligible_recipes w))"
      and el: "eligible_recipes w1 = filter (\<lambda>x. row_number x \<noteq> c) (eligible_recipes w)"
      and su: "sheet_updates w1 = sheet_updates w @ [(c, date r)]"
      by blast
    from c candidates_subset have cin: "c \<in> row_number ` set (eligible_recipes w)" by blast
    with inv have cnew: "c \<notin> fst ` set (sheet_updates w)"
      by (auto simp: rows_apart_def)
    have d: "distinct (map fst (sheet_updates w1))"
      using inv cnew su by (simp add: rows_apart_def)
    have "fst ` set (sheet_updates w1) \<inter> row_number ` set (eligible_recipes w1) = {}"
      using inv su el by (auto simp: rows_apart_def)
    with d show ?thesis by (simp add: rows_apart_def)
  qed
qed

lemma menu_loop_rows_apart:
  assumes "menu_loop choose_recipe tr fe rs wm w = (res, w')" and "rows_apart w"
  shows "rows_apart w'"
  using assms
proof (induction rs arbitrary: wm w)
  case Nil
  then show ?case by simp
next
  case (Cons r rs)
  obtain res1 w1 where step: "menu_step choose_recipe tr fe r wm w = (res1, w1)"
    by (cases "menu_step choose_recipe tr fe r wm w")
  from menu_step_rows_apart[OF step Cons.prems(2)] have inv1: "rows_apart w1" .
  show ?case
  proof (cases res1)
    case (Inl e)
    with Cons.prems(1) step have "w' = w1" by simp
    with inv1 show ?thesis by simp
  next
    case (Inr wm1)
    with Cons.prems(1) step have "menu_loop choose_recipe tr fe rs wm1 w1 = (res, w')" by simp
    from Cons.IH[OF this inv1] show ?thesis .
  qed
qed

lemma menu_loop_updates:
  assumes "menu_loop choose_recipe tr fe rs wm w = (res, w')"
  shows "\<exists>new k. sheet_updates w' = sheet_updates w @ new
        \<and> k \<le> length rs
        \<and> map snd new = map date (filter (\<lambda>r. weekday r \<notin> dom tr) (take k rs))
        \<and> (case res of Inr m \<Rightarrow> k = length rs
                      | Inl e \<Rightarrow> k < length rs \<and> weekday (rs ! k) \<notin> dom tr)
        \<and> recipes_df w' = recipes_df w \<and> calendar_inserts w' = calendar_inserts w
        \<and> eligible_recipes w'
             = filter (\<lambda>x. row_number x \<notin> fst ` set new) (eligible_recipes w)"
  using assms
proof (induction rs arbitrary: wm w)
  case Nil
  then show ?case by auto
next
  case (Cons r rs)
  obtain res1 w1 where step: "menu_step choose_recipe tr fe r wm w = (res1, w1)"
    by (cases "menu_step choose_recipe tr fe r wm w")
  show ?case
  proof (cases res1)
    case (Inl e)
    with Cons.prems step have r: "res = Inl e" "w' = w1" by simp_all
    from menu_step_choose_Inl[OF step[unfolded Inl]] r
    have "sheet_updates w' = sheet_updates w @ []
        \<and> (0::nat) \<le> length (r # rs)
        \<and> map snd ([]::(int \<times> pydate) list)
            = map date (filter (\<lambda>r. weekday r \<notin> dom tr) (take 0 (r # rs)))
        \<and> (case res of Inr m \<Rightarrow> 0 = length (r # rs)
                      | Inl e \<Rightarrow> 0 < length (r # rs) \<and> weekday ((r # rs) ! 0) \<notin> dom tr)
        \<and> recipes_df w' = recipes_df w \<and> calendar_inserts w' = calendar_inserts w
        \<and> eligible_recipes w'
             = filter (\<lambda>x. row_number x \<notin> fst ` set ([]::(int \<times> pydate) list)) (eligible_recipes w)"
      by simp
    then show ?thesis by blast
  next
    case (Inr wm1)
    with Cons.prems step have "menu_loop choose_recipe tr fe rs wm1 w1 = (res, w')" by simp
    from Cons.IH[OF this] obtain new k where
      su: "sheet_updates w' = sheet_updates w1 @ new"
      and k: "k \<le> length rs"
      and dates: "map snd new = map date (filter (\<lambda>r. weekday r \<notin> dom tr) (take k rs))"
      and res: "(case res of Inr m \<Rightarrow> k = length rs
                      | Inl e \<Rightarrow> k < length rs \<and> weekday (rs ! k) \<notin> dom tr)"
      and same: "recipes_df w' = recipes_df w1" "calendar_inserts w' = calendar_inserts w1"
      and el: "eligible_recipes w'
             = filter (\<lambda>x. row_number x \<notin> fst ` set new) (eligible_recipes w1)"
      by blast
    have res': "(case res of Inr m \<Rightarrow> Suc k = length (r # rs)
                      | Inl e \<Rightarrow> Suc k < length (r # rs) \<and> weekday ((r # rs) ! Suc k) \<notin> dom tr)"
      using res by (cases res) simp_all
    show ?thesis
    proof (cases "weekday r \<in> dom tr")
      case True
      with step have w1: "w1 = w" by (simp add: menu_step_tradition)
      have "sheet_updates w' = sheet_updates w @ new
        \<and> Suc k \<le> length (r # rs)
        \<and> map snd new = map date (filter (\<lambda>r. weekday r \<notin> dom tr) (take (Suc k) (r # rs)))
        \<and> (case res of Inr m \<Rightarrow> Suc k = length (r # rs)
                      | Inl e \<Rightarrow> Suc k < length (r # rs) \<and> weekday ((r # rs) ! Suc k) \<notin> dom tr)
        \<and> recipes_df w' = recipes_df w \<and> calendar_inserts w' = calendar_inserts w
        \<and> eligible_recipes w'
             = filter (\<lambda>x. row_number x \<notin> fst ` set new) (eligible_recipes w)"
        using su k dates res' same el w1 True by simp
      then show ?thesis by blast
    next
      case False
      from menu_step_choose_Inr[OF False step[unfolded Inr]] obtain c where
        el1: "eligible_recipes w1 = filter (\<lambda>x. row_number x \<noteq> c) (eligible_recipes w)"
        and su1: "sheet_updates w1 = sheet_updates w @ [(c, date r)]"
        and same1: "recipes_df w1 = recipes_df w" "calendar_inserts w1 = calendar_inserts w"
        by blast
      have elw: "eligible_recipes w'
             = filter (\<lambda>x. row_number x \<notin> fst ` set ((c, date r) # new)) (eligible_recipes w)"
        unfolding el el1 by (auto intro: filter_cong)
      have "sheet_updates w' = sheet_updates w @ ((c, date r) # new)
        \<and> Suc k \<le> length (r # rs)
        \<and> map snd ((c, date r) # new)
            = map date (filter (\<lambda>r. weekday r \<notin> dom tr) (take (Suc k) (r # rs)))
        \<and> (case res of Inr m \<Rightarrow> Suc k = length (r # rs)
                      | Inl e \<Rightarrow> Suc k < length (r # rs) \<and> weekday ((r # rs) ! Suc k) \<notin> dom tr)
        \<and> recipes_df w' = recipes_df w \<and> calendar_inserts w' = calendar_inserts w"
        using su k dates res' same su1 same1 False by simp
      with elw show ?thesis by blast
    qed
  qed
qed

lemma upto_shift: "[s..s + n] = map (\<lambda>d. s + d) [0..n]"
  by (auto simp: list_eq_iff_nth_eq nth_upto)

lemma unfolded_days:
  "map (\<lambda>d. (s + d, l)) (filter (\<lambda>d. s + d \<ge> today \<and> s + d \<le> today + 6) [0..e - s - 1])
     = map (\<lambda>d. (d, l)) (filter (\<lambda>d. today \<le> d \<and> d \<le> today + 6) [s..e - 1])"
proof -
  have "[s..e - 1] = map (\<lambda>d. s + d) [0..e - s - 1]"
    using upto_shift[of s "e - s - 1"] by simp
  then show ?thesis by (simp add: filter_map comp_def)
qed

lemma unfold_events_loop_acc:
  "unfold_events_loop sp today es acc =
     (case unfold_events_loop sp today es [] of Inl x \<Rightarrow> Inl x | Inr out \<Rightarrow> Inr (acc @ out))"
proof (induction es arbitrary: acc)
  case Nil
  show ?case by simp
next
  case (Cons e es)
  have step: "\<And>chunk. unfold_events_loop sp today es (acc @ chunk) =
     (case unfold_events_loop sp today es chunk of
        Inl x \<Rightarrow> Inl x | Inr out \<Rightarrow> Inr (acc @ out))"
  proof -
    fix chunk
    show "unfold_events_loop sp today es (acc @ chunk) =
     (case unfold_events_loop sp today es chunk of
        Inl x \<Rightarrow> Inl x | Inr out \<Rightarrow> Inr (acc @ out))"
      by (subst Cons.IH[of "acc @ chunk"], subst Cons.IH[of chunk])
         (simp split: sum.splits)
  qed
  show ?case
    by (simp add: step Let_def split: sum.splits)
qed

lemma unfold_events_loop_parsed:
  assumes "map (\<lambda>e. (parse_date sp (fst e), parse_date sp (fst (snd e)), snd (snd e))) events
            = map (\<lambda>p. (Inr (fst p), Inr (fst (snd p)), snd (snd p))) parsed"
  shows "unfold_events_loop sp today events [] = Inr (concat (map (spec_entries today) parsed))"
  using assms
proof (induction events arbitrary: parsed)
  case Nil
  then show ?case by simp
next
  case (Cons e es)
  then obtain p ps where parsed: "parsed = p # ps" by (cases parsed) auto
  obtain s e' l where p: "p = (s, e', l)" by (cases p)
  from Cons.prems parsed p have
    h: "parse_date sp (fst e) = Inr s" "parse_date sp (fst (snd e)) = Inr e'" "snd (snd e) = l"
    and rest: "map (\<lambda>e. (parse_date sp (fst e), parse_date sp (fst (snd e)), snd (snd e))) es
            = map (\<lambda>p. (Inr (fst p), Inr (fst (snd p)), snd (snd p))) ps"
    by simp_all
  from Cons.IH[OF rest]
  have ih: "unfold_events_loop sp today es [] = Inr (concat (map (spec_entries today) ps))" .
  have "unfold_events_loop sp today (e # es) []
          = (case unfold_events_loop sp today es [] of
               Inl x \<Rightarrow> Inl x | Inr out \<Rightarrow> Inr (spec_entries today p @ out))"
  proof (cases "e' - s > 1")
    case True
    then show ?thesis
      using h unfolded_days[of s l today e']
      by (simp add: p spec_entries_def
            unfold_events_loop_acc[of sp today es "map (\<lambda>d. (d, l))
               (filter (\<lambda>d. today \<le> d \<and> d \<le> today + 6) [s..e' - 1])"]
            split: sum.splits)
  next
    case False
    then show ?thesis
      using h
      by (simp add: p spec_entries_def unfold_events_loop_acc[of sp today es "[(s, l)]"]
            split: sum.splits)
  qed
  then show ?case by (simp add: ih parsed)
qed

lemma count_distinct:
  "distinct ys \<Longrightarrow> length (filter (\<lambda>y. y = d) ys) = (if d \<in> set ys then 1 else 0)"
  by (induction ys) auto

lemma spec_entries_count:
  "length (filter (\<lambda>x. fst x = d) (spec_entries today (s, e, l)))
     = (if e - s > 1
        then (if s \<le> d \<and> d < e \<and> today \<le> d \<and> d \<le> today + 6 then 1 else 0)
        else (if d = s then 1 else 0))"
proof -
  have "length (filter (\<lambda>x. fst x = d) (map (\<lambda>d. (d, l))
           (filter (\<lambda>d. today \<le> d \<and> d \<le> today + 6) [s..e - 1])))
        = length (filter (\<lambda>y. y = d) (filter (\<lambda>d. today \<le> d \<and> d \<le> today + 6) [s..e - 1]))"
    by (simp add: filter_map comp_def)
  also have "\<dots> = (if d \<in> set (filter (\<lambda>d. today \<le> d \<and> d \<le> today + 6) [s..e - 1]) then 1 else 0)"
    by (rule count_distinct) simp
  finally show ?thesis by (auto simp: spec_entries_def)
qed

lemma filter_key_absent: "d \<notin> fst ` set l \<Longrightarrow> filter (\<lambda>y. fst y = d) l = []"
  by (induction l) auto

lemma matches_unique:
  assumes "distinct (map fst l2)"
  shows "(let ms = filter (\<lambda>y. fst y = d) l2 in
            if ms = [] then [(d, Some a, None)]
            else map (\<lambda>y. (d, Some a, Some (snd y))) ms)
         = [(d, Some a, map_of l2 d)]"
  using assms
proof (induction l2)
  case Nil
  then show ?case by simp
next
  case (Cons kv l2)
  obtain k v where kv: "kv = (k, v)" by (cases kv)
  show ?case
  proof (cases "k = d")
    case True
    with Cons.prems kv have "d \<notin> fst ` set l2" by auto
    then have "filter (\<lambda>y. fst y = d) l2 = []" by (rule filter_key_absent)
    with True kv show ?thesis by simp
  next
    case False
    with Cons kv show ?thesis by simp
  qed
qed

lemma merge_outer_unique:
  assumes "distinct (map fst l2)"
  shows "merge_outer l1 l2 =
           map (\<lambda>x. (fst x, Some (snd x), map_of l2 (fst x))) l1
           @ map (\<lambda>y. (fst y, None, Some (snd y))) (filter (\<lambda>y. fst y \<notin> fst ` set l1) l2)"
proof -
  have "concat (map (\<lambda>x. let ms = filter (\<lambda>y. fst y = fst x) l2 in
                        if ms = [] then [(fst x, Some (snd x), None)]
                        else map (\<lambda>y. (fst x, Some (snd x), Some (snd y))) ms) l1)
        = concat (map (\<lambda>x. [(fst x, Some (snd x), map_of l2 (fst x))]) l1)"
    by (simp only: matches_unique[OF assms])
  also have "\<dots> = map (\<lambda>x. (fst x, Some (snd x), map_of l2 (fst x))) l1"
    by (induction l1) simp_all
  finally show ?thesis by (simp add: merge_outer_def)
qed

lemma merge_outer_fst:
  assumes "distinct (map fst l2)"
  shows "map fst (merge_outer l1 l2)
          = map fst l1 @ map fst (filter (\<lambda>y. fst y \<notin> fst ` set l1) l2)"
  by (simp add: merge_outer_unique[OF assms] comp_def)

lemma merge_outer_keys:
  assumes "distinct (map fst l1)" "distinct (map fst l2)"
  shows "distinct (map fst (merge_outer l1 l2))"
proof -
  have "distinct (map fst (filter (\<lambda>y. fst y \<notin> fst ` set l1) l2))"
    using assms(2) by (rule distinct_map_filter)
  moreover have "set (map fst l1) \<inter> set (map fst (filter (\<lambda>y. fst y \<notin> fst ` set l1) l2)) = {}"
    by force
  ultimately show ?thesis
    using assms(1) unfolding merge_outer_fst[OF assms(2)] distinct_append by simp
qed

lemma merge_outer_row:
  assumes "distinct (map fst l1)" "distinct (map fst l2)"
      and "d \<in> fst ` set l1 \<union> fst ` set l2"
  shows "(d, map_of l1 d, map_of l2 d) \<in> set (merge_outer l1 l2)"
proof (cases "d \<in> fst ` set l1")
  case True
  then obtain a where a: "(d, a) \<in> set l1" by auto
  with assms(1) have m1: "map_of l1 d = Some a" by simp
  have "(d, Some a, map_of l2 d) \<in> (\<lambda>x. (fst x, Some (snd x), map_of l2 (fst x))) ` set l1"
    using a by (intro image_eqI[where x = "(d, a)"]) simp_all
  then show ?thesis
    by (simp add: merge_outer_unique[OF assms(2)] m1)
next
  case False
  with assms(3) obtain b where b: "(d, b) \<in> set l2" by auto
  with assms(2) have m2: "map_of l2 d = Some b" by simp
  from False have m1: "map_of l1 d = None" by (simp add: map_of_eq_None_iff)
  have "(d, b) \<in> {y \<in> set l2. fst y \<notin> fst ` set l1}" using b False by simp
  then have "(d, None :: string option, Some b)
      \<in> (\<lambda>y. (fst y, None, Some (snd y))) ` {y \<in> set l2. fst y \<notin> fst ` set l1}"
    by (intro image_eqI[where x = "(d, b)"]) simp_all
  then show ?thesis
    by (simp add: merge_outer_unique[OF assms(2)] m1 m2)
qed

lemma merge_outer_key_set:
  assumes "distinct (map fst l2)"
  shows "fst ` set (merge_outer l1 l2) = fst ` set l1 \<union> fst ` set l2"
proof -
  have "fst ` set (merge_outer l1 l2) = set (map fst (merge_outer l1 l2))" by simp
  also have "\<dots> = fst ` set l1 \<union> fst ` {y \<in> set l2. fst y \<notin> fst ` set l1}"
    by (simp only: merge_outer_fst[OF assms]) simp
  also have "\<dots> = fst ` set l1 \<union> fst ` set l2" by blast
  finally show ?thesis .
qed

lemma find_unique_key:
  "distinct (map fst xs) \<Longrightarrow> x \<in> set xs \<Longrightarrow> find (\<lambda>y. fst y = fst x) xs = Some x"
  by (induction xs) (auto simp: rev_image_eqI)

lemma lookup_day:
  assumes "distinct (map fst l1)" "distinct (map fst l2)"
  shows "(case find (\<lambda>row. fst row = d) (sort_key fst (merge_outer l1 l2)) of
            None \<Rightarrow> (d, None, None) | Some row \<Rightarrow> row)
         = (d, map_of l1 d, map_of l2 d)"
proof (cases "d \<in> fst ` set l1 \<union> fst ` set l2")
  case True
  let ?R = "sort_key fst (merge_outer l1 l2)"
  have dk: "distinct (map fst ?R)"
    using merge_outer_keys[OF assms] by (simp add: distinct_map)
  have "(d, map_of l1 d, map_of l2 d) \<in> set ?R"
    using merge_outer_row[OF assms True] by simp
  from find_unique_key[OF dk this] show ?thesis by simp
next
  case False
  then have "d \<notin> fst ` set (sort_key fst (merge_outer l1 l2))"
    using merge_outer_key_set[OF assms(2), of l1] by simp
  then have "find (\<lambda>row. fst row = d) (sort_key fst (merge_outer l1 l2)) = None"
    by (force simp: find_None_iff)
  moreover from False have "map_of l1 d = None" "map_of l2 d = None"
    by (simp_all add: map_of_eq_None_iff)
  ultimately show ?thesis by simp
qed

lemma week_days: "[s..s + 6] = [s, s + 1, s + 2, s + 3, s + 4, s + 5, s + 6]"
  by (simp add: upto_rec1)

lemma create_events_df_unique:
  assumes "distinct (map fst l1)" "distinct (map fst l2)"
  shows "create_events_df l1 l2 s e = Inr (map (day_row l1 l2) [s..e])"
proof -
  have dk: "distinct (map fst (sort_key fst (merge_outer l1 l2)))"
    using merge_outer_keys[OF assms] by (simp add: distinct_map)
  show ?thesis
    unfolding create_events_df_def reindex_def Let_def
    using dk by (simp add: lookup_day[OF assms] day_row_def)
qed

text \<open>
  What \<open>choose_recipe\<close> draws from, whatever tier it is asked for: recipes of the tier
  \<^verbatim>\<open>difficult\<close> (\<open>candidates_difficult\<close> above). With row numbers that are pairwise different the candidates are too,
  so each of them is the element at exactly one of the equally likely positions.
\<close>

lemma candidates_distinct:
  assumes "distinct (map row_number el)"
  shows "distinct (candidates tie el)"
proof -
  let ?rows = "filter (\<lambda>r. difficulty r = ''difficult'') el"
  let ?key = "\<lambda>p. case last_date_on_menu (snd p) of
                     None \<Rightarrow> (None, 0::nat)
                   | Some d \<Rightarrow> (Some d, tie ?rows (fst p))"
  have rows: "distinct (map row_number ?rows)" using assms by (rule distinct_map_filter)
  have "map (\<lambda>p. row_number (snd p)) (enumerate 0 ?rows) = map row_number ?rows"
    using map_snd_enumerate[of 0 ?rows] by (metis (no_types, lifting) map_map comp_apply map_eq_conv)
  with rows have "distinct (map (\<lambda>p. row_number (snd p)) (enumerate 0 ?rows))" by simp
  then have "distinct (map (\<lambda>p. row_number (snd p)) (sort_key ?key (enumerate 0 ?rows)))"
    by (simp add: distinct_map)
  then show ?thesis unfolding candidates_def Let_def by (rule distinct_take)
qed

lemma random_choice_at_draw:
  assumes "k < length a" and "rng w 0 = k"
  shows "fst (random_choice a w) = Inr (a ! k)"
  using assms by (auto simp: random_choice_def)

lemma one_draw_each:
  assumes "distinct a" and "c \<in> set a"
  shows "\<exists>!k. k < length a \<and> a ! k = c"
  using assms by (simp add: distinct_Ex1)

text \<open>
  What \<open>unfold_events_list\<close> does with events whose dates parse: the entries of the
  specification, but for the seven days from today.
\<close>

lemma unfold_events_list_today_window:
  assumes "map (\<lambda>e. (parse_date strptime (fst e), parse_date strptime (fst (snd e)), snd (snd e)))
             events_list
           = map (\<lambda>p. (Inr (fst p), Inr (fst (snd p)), snd (snd p))) parsed"
  shows "unfold_events_list strptime today events_list
           = Inr (concat (map (spec_entries today) parsed))
       \<and> length (filter (\<lambda>x. fst x = d) (spec_entries today (s, e, l)))
           = (if e - s > 1
              then (if s \<le> d \<and> d < e \<and> today \<le> d \<and> d \<le> today + 6 then 1 else 0)
              else (if d = s then 1 else 0))
       \<and> snd ` set (spec_entries today (s, e, l)) \<subseteq> {l}"
proof -
  have "snd ` set (spec_entries today (s, e, l)) \<subseteq> {l}"
    by (auto simp: spec_entries_def)
  with unfold_events_loop_parsed[OF assms, of today] spec_entries_count[of d today s e l]
  show ?thesis by (simp add: unfold_events_list_def)
qed

text \<open>
  What \<open>create_events_df\<close> does when neither list has two entries on one date: seven rows,
  one for each day from \<open>START_DAY\<close> on, with the labels of that day.
\<close>

lemma create_events_df_one_event_a_day:
  assumes "distinct (map fst events_list_1)" and "distinct (map fst events_list_2)"
  shows "create_events_df events_list_1 events_list_2
           (START_DAY_of last_day) (NEXT_WEEK_of last_day)
         = Inr (map (day_row events_list_1 events_list_2)
             [START_DAY_of last_day, START_DAY_of last_day + 1, START_DAY_of last_day + 2,
              START_DAY_of last_day + 3, START_DAY_of last_day + 4,
              START_DAY_of last_day + 5, START_DAY_of last_day + 6])"
  by (simp only: create_events_df_unique[OF assms] NEXT_WEEK_of_def
        week_days[of "START_DAY_of last_day"])

lemma choose_recipe_frame:
  assumes "choose_recipe t idx wm w = (Inr (c, wm'), w')"
  shows "\<exists>v u. wm' = set_menu idx v u wm"
  using assms by (auto simp: choose_recipe_def split: prod.splits sum.splits)

lemma keeps_dates_choose_recipe: "keeps_dates choose_recipe"
  unfolding keeps_dates_def
proof (intro allI impI)
  fix tier :: string and idx :: pydate and slots :: "menu_row list" and w :: world
  assume here: "idx \<in> date ` set slots"
  show "case fst (choose_recipe tier idx slots w) of
          Inl e \<Rightarrow> True | Inr res \<Rightarrow> map date (snd res) = map date slots"
  proof (cases "fst (choose_recipe tier idx slots w)")
    case (Inl e)
    then show ?thesis by simp
  next
    case (Inr res)
    then have "choose_recipe tier idx slots w
                 = (Inr (fst res, snd res), snd (choose_recipe tier idx slots w))"
      by (simp add: prod_eq_iff)
    from choose_recipe_frame[OF this] obtain v u where "snd res = set_menu idx v u slots"
      by blast
    with here have "map date (snd res) = map date slots"
      by (simp add: set_menu_present spec_assign_dates)
    with Inr show ?thesis by simp
  qed
qed

lemma generate_weekmenu_spec_plan:
  "generate_weekmenu rs tr fe w = spec_plan choose_recipe tr fe rs (map copy_row rs) w"
proof -
  have "date ` set rs \<subseteq> date ` set (map copy_row rs)"
    by (auto simp: copy_row_def image_iff)
  from menu_loop_spec_plan[OF keeps_dates_choose_recipe this]
  show ?thesis by (simp add: generate_weekmenu_def)
qed

lemma unfold_events_list_today_window_example:
  "map (\<lambda>e. (parse_date example_strptime (fst e), parse_date example_strptime (fst (snd e)),
             snd (snd e))) example_events
     = [(Inr 737430, Inr 737433, ''WORK''), (Inr 737433, Inr 737433, ''FREE'')]
   \<and> unfold_events_list example_strptime 737431 example_events
     = Inr [(737431, ''WORK''), (737432, ''WORK''), (737433, ''FREE'')]"
proof -
  have h: "map (\<lambda>e. (parse_date example_strptime (fst e), parse_date example_strptime (fst (snd e)),
             snd (snd e))) example_events
     = map (\<lambda>p. (Inr (fst p), Inr (fst (snd p)), snd (snd p)))
         [(737430, 737433, ''WORK''), (737433, 737433, ''FREE'')]"
    by (simp add: example_events_def example_strptime_def parse_date_def)
  have "unfold_events_list example_strptime 737431 example_events
     = Inr (concat (map (spec_entries 737431)
         [(737430, 737433, ''WORK''), (737433, 737433, ''FREE'')]))"
    using unfold_events_list_today_window [OF h] by blast
  also have "\<dots> = Inr [(737431, ''WORK''), (737432, ''WORK''), (737433, ''FREE'')]"
    by (simp add: spec_entries_def)
  finally show ?thesis using h by simp
qed

lemma create_events_df_one_event_a_day_example:
  "distinct (map fst example_list_1) \<and> distinct (map fst example_list_2)
   \<and> map (\<lambda>r. (date r, events_cal_1 r, events_cal_2 r, weekday r))
       (projr (create_events_df example_list_1 example_list_2
                 (START_DAY_of 737429) (NEXT_WEEK_of 737429)))
     = [(737430, Some ''WORK'', None, ''Monday''),
        (737431, Some ''FREE'', Some ''WORK'', ''Tuesday''),
        (737432, None, None, ''Wednesday''),
        (737433, None, None, ''Thursday''),
        (737434, None, None, ''Friday''),
        (737435, None, None, ''Saturday''),
        (737436, None, None, ''Sunday'')]"
proof -
  have h1: "distinct (map fst example_list_1)" by (simp add: example_list_1_def)
  have h2: "distinct (map fst example_list_2)" by (simp add: example_list_2_def)
  show ?thesis
    unfolding create_events_df_one_event_a_day [OF h1 h2]
    using h1 h2
    by (simp add: day_row_def strftime_A_def weekday_names_def START_DAY_of_def
          example_list_1_def example_list_2_def)
qed

section \<open>The claims\<close>

text \<open>
  C1. For every pick of a recipe for a non-tradition slot, the difficulty of the chosen
  recipe equals the tier requested for the slot. The code does not do that: a busy Monday
  asks for \<^verbatim>\<open>easy\<close>, and with an easy and a difficult recipe eligible the slot gets the
  difficult one (row 3), because the query of \<open>choose_recipe\<close> names the literal
  \<^verbatim>\<open>'difficult'\<close>. The theorem evaluates the code at that input.
\<close>

theorem choose_recipe_ignores_requested_tier:
  "spec_requested_tier Map.empty [] monday_busy = Some ''easy''
   \<and> sheet_updates (snd (generate_weekmenu [monday_busy] Map.empty [] (world0 [soup, roast])))
       = [(3, 737430)]
   \<and> map wm_recipe (projr (fst (generate_weekmenu [monday_busy] Map.empty [] (world0 [soup, roast]))))
       = [Some ''roast'']
   \<and> row_number roast = 3 \<and> difficulty roast = ''difficult''"
  by (simp add: generate_weekmenu_def menu_step_def monday_busy_def in_free_def
        choose_recipe_def random_choice_def candidates_def Let_def loc_row_def world0_def
        soup_def roast_def set_menu_def update_sheet_def copy_row_def spec_requested_tier_def)

text \<open>
  C2. For every slot, in order: a weekday that is a key of the traditions gets the
  tradition recipe with the empty description and no draw is made; otherwise Saturday and
  Sunday request \<^verbatim>\<open>difficult\<close>; otherwise a free label or a missing label on either
  calendar requests \<^verbatim>\<open>medium\<close>; otherwise \<^verbatim>\<open>easy\<close> is requested. Stated as a refinement:
  whatever function is called to pick, one pass of the loop of \<open>generate_weekmenu\<close> over
  a slot of the plan is the specification's \<open>spec_slot\<close>, which calls the pick with
  \<open>spec_requested_tier\<close>, and the loop is \<open>spec_plan\<close> for every pick that keeps the
  plan's dates, \<open>choose_recipe\<close> among them. The last part spells out the tradition slot.
\<close>

theorem generate_weekmenu_slot_rule:
  "(date r \<in> date ` set wm
      \<longrightarrow> menu_step pick tr fe r wm w = spec_slot pick tr fe r wm w)
   \<and> (keeps_dates pick \<and> date ` set rs \<subseteq> date ` set wm
      \<longrightarrow> menu_loop pick tr fe rs wm w = spec_plan pick tr fe rs wm w)
   \<and> generate_weekmenu rs tr fe w = spec_plan choose_recipe tr fe rs (map copy_row rs) w
   \<and> (tr (weekday r) = Some t \<and> date r \<in> date ` set wm
      \<longrightarrow> menu_step pick tr fe r wm w =
            (Inr (map (\<lambda>m. if date m = date r
                            then \<lparr>date = date m, events_cal_1 = events_cal_1 m,
                                  events_cal_2 = events_cal_2 m, weekday = weekday m,
                                  wm_recipe = Some t, wm_description = Some []\<rparr>
                            else m) wm), w))"
proof (intro conjI impI)
  assume "date r \<in> date ` set wm"
  then show "menu_step pick tr fe r wm w = spec_slot pick tr fe r wm w"
    by (rule menu_step_spec_slot)
next
  assume a: "keeps_dates pick \<and> date ` set rs \<subseteq> date ` set wm"
  from a have k: "keeps_dates pick" by (rule conjunct1)
  from a have d: "date ` set rs \<subseteq> date ` set wm" by (rule conjunct2)
  show "menu_loop pick tr fe rs wm w = spec_plan pick tr fe rs wm w"
    by (rule menu_loop_spec_plan[OF k d])
next
  show "generate_weekmenu rs tr fe w = spec_plan choose_recipe tr fe rs (map copy_row rs) w"
    by (rule generate_weekmenu_spec_plan)
next
  assume a: "tr (weekday r) = Some t \<and> date r \<in> date ` set wm"
  then have "date r \<in> date ` set wm" by (rule conjunct2)
  then have "menu_step pick tr fe r wm w = spec_slot pick tr fe r wm w"
    by (rule menu_step_spec_slot)
  with a show "menu_step pick tr fe r wm w =
            (Inr (map (\<lambda>m. if date m = date r
                            then \<lparr>date = date m, events_cal_1 = events_cal_1 m,
                                  events_cal_2 = events_cal_2 m, weekday = weekday m,
                                  wm_recipe = Some t, wm_description = Some []\<rparr>
                            else m) wm), w)"
    by (simp add: spec_slot_def spec_requested_tier_def spec_assign_def)
qed

theorem generate_weekmenu_slot_rule_witness:
  "keeps_dates echo_tier
   \<and> date ` set example_week \<subseteq> date ` set (map copy_row example_week)
   \<and> map (\<lambda>m. (wm_recipe m, wm_description m))
       (projr (fst (menu_loop echo_tier [''Friday'' \<mapsto> ''fries''] [''FREE'']
          example_week (map copy_row example_week) (world0 []))))
     = [(Some ''easy'', Some ''asked''), (Some ''difficult'', Some ''asked''),
        (Some ''medium'', Some ''asked''), (Some ''medium'', Some ''asked''),
        (Some ''fries'', Some [])]"
proof -
  have "\<And>idx tier slots.
          map date (map (\<lambda>m. if date m = idx
                              then m\<lparr>wm_recipe := Some tier, wm_description := Some ''asked''\<rparr>
                              else m) slots) = map date slots"
    by (induct_tac slots) simp_all
  then have k: "keeps_dates echo_tier"
    unfolding keeps_dates_def echo_tier_def by simp
  have d: "date ` set example_week \<subseteq> date ` set (map copy_row example_week)"
    by (simp add: example_week_def monday_busy_def saturday_empty_def copy_row_def)
  have eq: "menu_loop echo_tier [''Friday'' \<mapsto> ''fries''] [''FREE'']
              example_week (map copy_row example_week) (world0 [])
          = spec_plan echo_tier [''Friday'' \<mapsto> ''fries''] [''FREE'']
              example_week (map copy_row example_week) (world0 [])"
    by (rule generate_weekmenu_slot_rule [where pick = echo_tier
      and tr = "[''Friday'' \<mapsto> ''fries'']" and fe = "[''FREE'']" and rs = example_week
      and wm = "map copy_row example_week" and w = "world0 []",
      THEN conjunct2, THEN conjunct1, rule_format]) (rule conjI[OF k d])
  have "map (\<lambda>m. (wm_recipe m, wm_description m))
       (projr (fst (menu_loop echo_tier [''Friday'' \<mapsto> ''fries''] [''FREE'']
          example_week (map copy_row example_week) (world0 []))))
     = [(Some ''easy'', Some ''asked''), (Some ''difficult'', Some ''asked''),
        (Some ''medium'', Some ''asked''), (Some ''medium'', Some ''asked''),
        (Some ''fries'', Some [])]"
    unfolding eq
    by (simp add: example_week_def monday_busy_def saturday_empty_def spec_slot_def
          spec_requested_tier_def spec_assign_def echo_tier_def copy_row_def)
  with k d show ?thesis by (intro conjI)
qed

text \<open>
  C3. No two non-tradition slots of a generated plan get the same recipe row: a picked
  recipe leaves the eligible recipes at once, so no later pick returns it. The rows are
  read off the update requests, one per pick; the statement holds for a run that ends in
  an error as well.
\<close>

theorem generate_weekmenu_no_repeated_row:
  "(choose_recipe t idx wm0 w0 = (Inr (c, wm1), w1)
      \<longrightarrow> c \<notin> row_number ` set (eligible_recipes w1)
          \<and> set (eligible_recipes w1) \<subseteq> set (eligible_recipes w0))
   \<and> (generate_weekmenu events_df tr fe w = (res, w') \<and> sheet_updates w = []
      \<longrightarrow> distinct (map fst (sheet_updates w'))
          \<and> fst ` set (sheet_updates w') \<inter> row_number ` set (eligible_recipes w') = {})"
proof (intro conjI impI)
  assume a: "choose_recipe t idx wm0 w0 = (Inr (c, wm1), w1)"
  from choose_recipe_Inr[OF a]
  have el: "eligible_recipes w1 = filter (\<lambda>x. row_number x \<noteq> c) (eligible_recipes w0)" by simp
  show "c \<notin> row_number ` set (eligible_recipes w1)" using el by auto
  show "set (eligible_recipes w1) \<subseteq> set (eligible_recipes w0)" using el by auto
next
  assume a: "generate_weekmenu events_df tr fe w = (res, w') \<and> sheet_updates w = []"
  then have "rows_apart w" by (simp add: rows_apart_def)
  with a have "rows_apart w'"
    unfolding generate_weekmenu_def using menu_loop_rows_apart by blast
  then show "distinct (map fst (sheet_updates w'))"
    and "fst ` set (sheet_updates w') \<inter> row_number ` set (eligible_recipes w') = {}"
    by (simp_all add: rows_apart_def)
qed

theorem generate_weekmenu_no_repeated_row_witness:
  "map_sum id fst (fst (choose_recipe ''difficult'' 737435 (map copy_row weekend)
          (world0 [stew, roast]))) = Inr 3
   \<and> 3 \<notin> row_number ` set (eligible_recipes
          (snd (choose_recipe ''difficult'' 737435 (map copy_row weekend)
             (world0 [stew, roast]))))
   \<and> sheet_updates (world0 [soup, stew, roast]) = []
   \<and> map fst (sheet_updates
        (snd (generate_weekmenu weekend Map.empty [] (world0 [soup, stew, roast])))) = [3, 4]
   \<and> distinct (map fst (sheet_updates
        (snd (generate_weekmenu weekend Map.empty [] (world0 [soup, stew, roast])))))
   \<and> fst ` set (sheet_updates
        (snd (generate_weekmenu weekend Map.empty [] (world0 [soup, stew, roast]))))
      \<inter> row_number ` set (eligible_recipes
        (snd (generate_weekmenu weekend Map.empty [] (world0 [soup, stew, roast])))) = {}"
proof -
  let ?C = "choose_recipe ''difficult'' 737435 (map copy_row weekend) (world0 [stew, roast])"
  let ?G = "generate_weekmenu weekend Map.empty [] (world0 [soup, stew, roast])"
  have c: "map_sum id fst (fst ?C) = Inr 3"
    by (simp add: choose_recipe_def random_choice_def candidates_def Let_def loc_row_def world0_def
          stew_def roast_def Let_def)
  then obtain m where "fst ?C = Inr (3, m)"
    by (cases "fst ?C") auto
  then have h1: "?C = (Inr (3, m), snd ?C)" by (simp add: prod_eq_iff)
  have s0: "sheet_updates (world0 [soup, stew, roast]) = []" by (simp add: world0_def)
  then have h2: "?G = (fst ?G, snd ?G) \<and> sheet_updates (world0 [soup, stew, roast]) = []"
    by simp
  have rows: "map fst (sheet_updates (snd ?G)) = [3, 4]"
    by (simp add: generate_weekmenu_def menu_step_def weekend_def saturday_empty_def
        choose_recipe_def random_choice_def candidates_def Let_def loc_row_def world0_def
        soup_def roast_def stew_def set_menu_def update_sheet_def copy_row_def)
  note t = generate_weekmenu_no_repeated_row [where t = "''difficult''" and idx = 737435
      and ?wm0.0 = "map copy_row weekend" and ?w0.0 = "world0 [stew, roast]" and c = 3
      and ?wm1.0 = m
      and ?w1.0 = "snd ?C" and events_df = weekend and tr = Map.empty and fe = "[]"
      and w = "world0 [soup, stew, roast]" and res = "fst ?G" and w' = "snd ?G"]
  from t h1 have a: "3 \<notin> row_number ` set (eligible_recipes (snd ?C))" by blast
  from t h2 have b: "distinct (map fst (sheet_updates (snd ?G)))
     \<and> fst ` set (sheet_updates (snd ?G)) \<inter> row_number ` set (eligible_recipes (snd ?G)) = {}"
    by blast
  from c a s0 rows b show ?thesis by blast
qed

text \<open>
  C4. With the planning date \<open>START_DAY_of last_day\<close>, the eligible recipes are exactly the
  rows whose \<^verbatim>\<open>last_date_on_menu\<close> is missing or strictly earlier than the planning date
  minus 7 days, and a recipe used within the last 7 days is not eligible.
\<close>

theorem get_recipes_eligible:
  "snd (get_recipes rows (PREV_WEEK_of last_day)) =
     filter (\<lambda>r. last_date_on_menu r = None
                 \<or> (\<exists>d. last_date_on_menu r = Some d \<and> d < START_DAY_of last_day - 7)) rows
   \<and> fst (get_recipes rows (PREV_WEEK_of last_day)) = rows
   \<and> (\<forall>r d. last_date_on_menu r = Some d \<and> START_DAY_of last_day - 7 \<le> d
          \<longrightarrow> r \<notin> set (snd (get_recipes rows (PREV_WEEK_of last_day))))"
proof -
  have eq: "\<And>r. ((case last_date_on_menu r of None \<Rightarrow> False | Some d \<Rightarrow> d < PREV_WEEK_of last_day)
                 \<or> last_date_on_menu r = None)
          = (last_date_on_menu r = None
                 \<or> (\<exists>d. last_date_on_menu r = Some d \<and> d < START_DAY_of last_day - 7))"
    by (auto simp: PREV_WEEK_of_def split: option.splits)
  show ?thesis
    unfolding get_recipes_def by (auto simp: eq)
qed

theorem get_recipes_eligible_witness:
  "last_date_on_menu stew = Some 737400 \<and> START_DAY_of 737406 - 7 \<le> 737400
   \<and> stew \<notin> set (snd (get_recipes [soup, roast, stew] (PREV_WEEK_of 737406)))
   \<and> snd (get_recipes [soup, roast, stew] (PREV_WEEK_of 737407)) = [soup, roast, stew]"
  using get_recipes_eligible [of "[soup, roast, stew]" 737406]
        get_recipes_eligible [of "[soup, roast, stew]" 737407]
  by (simp add: stew_def soup_def roast_def START_DAY_of_def)

text \<open>
  C5. For every pick, the chosen recipe lies among the (at most five) least recently used
  eligible recipes of the requested tier. The code does not do that: asked for \<^verbatim>\<open>easy\<close>
  with recipe 2 the only easy one, it returns recipe 3, and with no difficult recipe
  eligible it raises although an easy one is. The theorem evaluates the code there.
\<close>

theorem choose_recipe_outside_tier_candidates:
  "spec_candidates ''easy'' (eligible_recipes (world0 [soup, roast])) = [2]
   \<and> map_sum id fst (fst (choose_recipe ''easy'' 737430 [] (world0 [soup, roast]))) = Inr 3
   \<and> fst (choose_recipe ''easy'' 737430 [] (world0 [soup])) = Inl ValueError"
  by (simp add: choose_recipe_def random_choice_def candidates_def Let_def loc_row_def world0_def
        soup_def roast_def set_menu_def spec_candidates_def)

text \<open>
  C6. An event of more than one day gives one entry for each day of its span that lies
  in the seven days of the new menu. The code does not do that: it keeps the days in the
  seven days from today. Run on Wednesday 2020-01-08 for the menu of 2020-01-10 to
  2020-01-16 (the last menu ends on the 9th, the lead time is 2 days), an event over
  2020-01-13 to 2020-01-16 gives entries for the 13th and 14th only, and the table of
  the week has no label on the 15th and 16th. The theorem evaluates the code there.
\<close>

theorem unfold_events_list_window_starts_today:
  "737433 - NB_DAYS_BEFORE example_config < 737432
   \<and> START_DAY_of 737433 = 737434 \<and> NEXT_WEEK_of 737433 = 737440
   \<and> get_events_by_calendarId example_strptime (\<lambda>s. s) 737432 long_items
        (ALL_EVENTS example_config)
      = Inr [(737437, ''WORK''), (737438, ''WORK'')]
   \<and> spec_entries (START_DAY_of 737433) (737437, 737441, ''WORK'')
      = [(737437, ''WORK''), (737438, ''WORK''), (737439, ''WORK''), (737440, ''WORK'')]
   \<and> map events_cal_1 (projr (create_events_df [(737437, ''WORK''), (737438, ''WORK'')] []
        (START_DAY_of 737433) (NEXT_WEEK_of 737433)))
      = [None, None, None, Some ''WORK'', Some ''WORK'', None, None]"
proof -
  have gate: "737433 - NB_DAYS_BEFORE example_config < 737432"
    by (simp add: example_config_def)
  have days: "START_DAY_of 737433 = 737434 \<and> NEXT_WEEK_of 737433 = 737440"
    by (simp add: START_DAY_of_def NEXT_WEEK_of_def)
  have code: "get_events_by_calendarId example_strptime (\<lambda>s. s) 737432 long_items
        (ALL_EVENTS example_config)
      = Inr [(737437, ''WORK''), (737438, ''WORK'')]"
    by (simp add: get_events_by_calendarId_def unfold_events_list_def long_items_def
          all_day_def get_event_date_def parse_date_def example_strptime_def
          example_config_def Let_def upto_rec1)
  have spec: "spec_entries (START_DAY_of 737433) (737437, 737441, ''WORK'')
      = [(737437, ''WORK''), (737438, ''WORK''), (737439, ''WORK''), (737440, ''WORK'')]"
    by (simp add: spec_entries_def START_DAY_of_def)
  have d: "distinct (map fst [(737437::int, ''WORK''), (737438, ''WORK'')])"
          "distinct (map fst ([]::(int \<times> string) list))"
    by simp_all
  have table: "map events_cal_1 (projr (create_events_df [(737437, ''WORK''), (737438, ''WORK'')] []
        (START_DAY_of 737433) (NEXT_WEEK_of 737433)))
      = [None, None, None, Some ''WORK'', Some ''WORK'', None, None]"
    unfolding create_events_df_one_event_a_day[OF d]
    by (simp add: day_row_def START_DAY_of_def)
  from gate days code spec table show ?thesis by blast
qed

text \<open>
  C7. For every pair of per-day event lists the merged table has exactly seven rows, one
  for each day of the week. The code does not do that: two labelled events of one
  calendar on Monday 2020-01-06 come out of \<open>get_events_by_calendarId\<close> as two entries on
  that date, the merged index has the date twice, the reindexing raises, and there is no
  table. The theorem evaluates the code there.
\<close>

theorem create_events_df_two_events_one_day:
  "get_events_by_calendarId example_strptime (\<lambda>s. s) 737430 crowded_items
        (ALL_EVENTS example_config)
      = Inr crowded_list
   \<and> create_events_df crowded_list [] (START_DAY_of 737429) (NEXT_WEEK_of 737429)
      = Inl ValueError"
proof -
  have items: "get_events_by_calendarId example_strptime (\<lambda>s. s) 737430 crowded_items
        (ALL_EVENTS example_config)
      = Inr crowded_list"
    by (simp add: get_events_by_calendarId_def unfold_events_list_def crowded_items_def
          all_day_def get_event_date_def parse_date_def example_strptime_def
          example_config_def crowded_list_def Let_def)
  have "create_events_df crowded_list [] (START_DAY_of 737429) (NEXT_WEEK_of 737429)
      = Inl ValueError"
    by (simp add: create_events_df_def reindex_def merge_outer_def crowded_list_def
          START_DAY_of_def NEXT_WEEK_of_def upto_rec1)
  with items show ?thesis by blast
qed

text \<open>
  C8. When the last date of the previous menu minus the lead time is not yet before
  today, the run prints its message and ends without an error, and makes no request to
  either write interface; so it does with the last date 3 days ahead and a lead time of 2.
\<close>

theorem main_stops_while_menu_runs:
  assumes "get_date_last_event (env_strptime ev) (weekmenu_items ev) = Inr last_day"
      and "env_today ev \<le> last_day - NB_DAYS_BEFORE cfg"
  shows "fst (main cfg ev w) = Inr ''Program stopped. Last week menu is not finished yet.''
       \<and> sheet_updates (snd (main cfg ev w)) = sheet_updates w
       \<and> calendar_inserts (snd (main cfg ev w)) = calendar_inserts w"
  using assms by (simp add: main_def Let_def)

theorem main_stops_while_menu_runs_witness:
  "get_date_last_event (env_strptime example_env) (weekmenu_items example_env)
     = Inr (env_today example_env + 3)
   \<and> NB_DAYS_BEFORE example_config = 2
   \<and> fst (main example_config example_env (world0 []))
       = Inr ''Program stopped. Last week menu is not finished yet.''
   \<and> sheet_updates (snd (main example_config example_env (world0 []))) = []
   \<and> calendar_inserts (snd (main example_config example_env (world0 []))) = []"
proof -
  have h1: "get_date_last_event (env_strptime example_env) (weekmenu_items example_env)
              = Inr 737433"
    by (simp add: get_date_last_event_def example_env_def example_strptime_def parse_date_def)
  have h2: "env_today example_env \<le> 737433 - NB_DAYS_BEFORE example_config"
    by (simp add: example_env_def example_config_def)
  have h3: "env_today example_env + 3 = 737433" by (simp add: example_env_def)
  show ?thesis
    using main_stops_while_menu_runs [OF h1 h2, of "world0 []"] h1 h3
    by (simp add: world0_def example_config_def)
qed

text \<open>
  C9, as the code has it. Each non-tradition slot's pick is followed at once by the update
  of the store with the slot's date: when the run ends, in an error at slot \<open>k\<close> or after
  the last slot, the store holds one update for every non-tradition slot before that
  point, in order. In memory the picked recipes are removed from \<open>eligible_recipes\<close>;
  \<open>recipes_df\<close> and the dates of the remaining eligible recipes are unchanged.
\<close>

theorem generate_weekmenu_updates_store_per_slot:
  assumes "generate_weekmenu events_df tr fe w = (res, w')"
  shows "\<exists>new k. sheet_updates w' = sheet_updates w @ new
        \<and> k \<le> length events_df
        \<and> map snd new = map date (filter (\<lambda>r. weekday r \<notin> dom tr) (take k events_df))
        \<and> (case res of Inr m \<Rightarrow> k = length events_df
                      | Inl e \<Rightarrow> k < length events_df \<and> weekday (events_df ! k) \<notin> dom tr)
        \<and> recipes_df w' = recipes_df w \<and> calendar_inserts w' = calendar_inserts w
        \<and> eligible_recipes w'
             = filter (\<lambda>x. row_number x \<notin> fst ` set new) (eligible_recipes w)"
  using assms unfolding generate_weekmenu_def by (rule menu_loop_updates)

theorem generate_weekmenu_updates_store_per_slot_witness:
  "\<exists>new k. sheet_updates (snd (generate_weekmenu weekend [''Friday'' \<mapsto> ''fries''] [] (world0 [soup, stew, roast])))
            = sheet_updates (world0 [soup, stew, roast]) @ new
        \<and> k \<le> length weekend
        \<and> map snd new = map date (filter (\<lambda>r. weekday r \<notin> dom [''Friday'' \<mapsto> ''fries'']) (take k weekend))
        \<and> (case fst (generate_weekmenu weekend [''Friday'' \<mapsto> ''fries''] [] (world0 [soup, stew, roast])) of
              Inr m \<Rightarrow> k = length weekend
            | Inl e \<Rightarrow> k < length weekend \<and> weekday (weekend ! k) \<notin> dom [''Friday'' \<mapsto> ''fries''])
        \<and> recipes_df (snd (generate_weekmenu weekend [''Friday'' \<mapsto> ''fries''] [] (world0 [soup, stew, roast])))
            = recipes_df (world0 [soup, stew, roast])
        \<and> calendar_inserts (snd (generate_weekmenu weekend [''Friday'' \<mapsto> ''fries''] [] (world0 [soup, stew, roast])))
            = calendar_inserts (world0 [soup, stew, roast])
        \<and> eligible_recipes (snd (generate_weekmenu weekend [''Friday'' \<mapsto> ''fries''] [] (world0 [soup, stew, roast])))
             = filter (\<lambda>x. row_number x \<notin> fst ` set new)
                 (eligible_recipes (world0 [soup, stew, roast]))"
proof -
  have h: "generate_weekmenu weekend [''Friday'' \<mapsto> ''fries''] [] (world0 [soup, stew, roast])
        = (fst (generate_weekmenu weekend [''Friday'' \<mapsto> ''fries''] [] (world0 [soup, stew, roast])),
           snd (generate_weekmenu weekend [''Friday'' \<mapsto> ''fries''] [] (world0 [soup, stew, roast])))"
    by simp
  show ?thesis by (rule generate_weekmenu_updates_store_per_slot[OF h])
qed

text \<open>
  C9 as stated fails: after the Saturday slot picked recipe 3 and the store was told so,
  no recipe in memory carries the slot's date. Row 3 of \<open>recipes_df\<close> still has no date,
  and \<open>eligible_recipes\<close> no longer has the row.
\<close>

theorem generate_weekmenu_leaves_pool_dates:
  "fst (generate_weekmenu [saturday_empty] Map.empty [] (world0 [roast]))
     = Inr [\<lparr>date = 737435, events_cal_1 = None, events_cal_2 = None, weekday = Some ''Saturday'',
             wm_recipe = Some ''roast'', wm_description = Some ''slow''\<rparr>]
   \<and> sheet_updates (snd (generate_weekmenu [saturday_empty] Map.empty [] (world0 [roast])))
     = [(3, 737435)]
   \<and> map (\<lambda>r. (row_number r, last_date_on_menu r))
       (recipes_df (snd (generate_weekmenu [saturday_empty] Map.empty [] (world0 [roast]))))
     = [(3, None)]
   \<and> eligible_recipes (snd (generate_weekmenu [saturday_empty] Map.empty [] (world0 [roast])))
     = []"
  by (simp add: generate_weekmenu_def menu_step_def saturday_empty_def
        choose_recipe_def random_choice_def candidates_def Let_def loc_row_def world0_def
        roast_def set_menu_def update_sheet_def copy_row_def)

text \<open>
  C10. Every calendar event inserted for a slot of the menu starts and ends on the slot's
  own date: the end is not the day after the start.
\<close>

theorem add_weekmenu_dates:
  "calendar_inserts (add_weekmenu_to_calendar weekmenu_df w)
     = calendar_inserts w @ map menu_event weekmenu_df
   \<and> map start_date (map menu_event weekmenu_df) = map date weekmenu_df
   \<and> map end_date (map menu_event weekmenu_df) = map date weekmenu_df
   \<and> (\<forall>e \<in> set (map menu_event weekmenu_df).
         end_date e = start_date e \<and> end_date e \<noteq> start_date e + 1)"
  by (auto simp: add_weekmenu_to_calendar_def menu_event_def)

theorem add_weekmenu_dates_witness:
  "map (\<lambda>e. (start_date e, end_date e))
     (calendar_inserts (add_weekmenu_to_calendar (map copy_row example_week) (world0 [])))
   = [(737430, 737430), (737435, 737435), (737431, 737431), (737432, 737432),
      (737434, 737434)]"
  using add_weekmenu_dates [of "map copy_row example_week" "world0 []"]
  by (simp add: example_week_def monday_busy_def saturday_empty_def copy_row_def world0_def menu_event_def)

end
